theory Spec2Isabelle
  imports
    Main
    "HOL-Library.AList"
    "HOL-Library.Char_ord"
    "HOL-Library.List_Lexorder"
    "HOL-Library.Product_Lexorder"
    "HOL-Library.Sublist"
    "HOL-Library.Multiset"
begin

section \<open>The replicated document engine of crdtree (src/crdtree/src/State.ts)\<close>

text \<open>
  The class \<open>State\<close> owns an operation log (\<open>changes\<close>), a set of seen identities
  (\<open>_seen\<close>), a clock and an arena of containers (\<open>objects\<close>). Its methods mutate these
  fields in place; here every method takes the state and returns the new one. A
  \<open>throw\<close> of the source is an error value, and because the instance survives a throw
  with whatever had been mutated so far, the state-level operations return the state
  together with the error.
\<close>

subsection \<open>Data imported by State.ts\<close>

text \<open>
  Modelled from the spec: the declarations of \<open>ID\<close>, \<open>Index\<close>, \<open>Change\<close>, the four
  actions, \<open>BackendPrimitive\<close>, \<open>ObjectKind\<close> and \<open>Entry\<close> live in API.ts, Change.ts,
  Action.ts, Primitive.ts and StateObject.ts, which are not part of the sources at hand.
  State.ts fixes the field names (\<open>clock\<close>, \<open>dep\<close>, \<open>action\<close>; \<open>item\<close>, \<open>at\<close>,
  \<open>in\<close>; \<open>name\<close>, \<open>value\<close>, \<open>kind\<close>, \<open>deleted\<close>); the spec describes an identity as
  an opaque token that is unique per operation, a total order by clock and then by a
  site token, and the sentinel \<open>ROOT_PARENT\<close>. An operation identity is therefore the
  pair of the site token and the clock.
\<close>

datatype ID = ROOT_PARENT | OpID string int

datatype Index = Key string | Pos nat

text \<open>
  Modelled from the spec: \<open>ROOT\<close> (Constants.ts) is the index of the single slot of the
  container \<open>ROOT_PARENT\<close>; State.ts uses it only as a key of that map and as the first
  element of every path.
\<close>

definition ROOT :: Index where
  "ROOT = Key ''ROOT''"

datatype ObjectKind = OTHER | OBJECT | ARRAY

text \<open>
  A JavaScript value as far as State.ts looks at it: the payload of a primitive, the
  container reference of a nested object or list, or \<open>undefined\<close>. The running name of
  \<open>getElementImpl\<close> is such a value, since \<open>entry?.value as ID\<close> is an unchecked cast.
\<close>

datatype Val = VId ID | VStr string | VNum int | VBool bool | VNull | VUndefined

record BackendPrimitive =
  item_name :: ID
  item_value :: Val
  item_kind :: ObjectKind

record Entry =
  name :: "ID option"
  val :: Val
  kind :: ObjectKind
  deleted :: bool

datatype Action =
    Assignment BackendPrimitive Index ID
  | ListAssignment BackendPrimitive nat ID
  | Insertion BackendPrimitive "ID option" ID
  | Deletion ID ID

record Change =
  pid :: string
  clock :: int
  dep :: "ID option"
  action :: Action

datatype MetaObject = MetaMapObj "(Index \<times> Entry) list" | MetaArray "Entry list"

type_synonym MetaMap = "(ID \<times> MetaObject) list"

datatype error = RangeError string | EvalError string | TypeError string

text \<open>
  Modelled from the spec: \<open>toID\<close> and \<open>changeSortCompare\<close> (Change.ts) are not part of the
  sources at hand. The identity of a change is its site token with its clock; the total
  order compares the clock first and the site token on equal clocks. \<open>Array.sort\<close> is
  stable, as \<open>sort_key\<close> is.
\<close>

definition toID :: "Change \<Rightarrow> ID" where
  "toID c = OpID (pid c) (clock c)"

definition changeKey :: "Change \<Rightarrow> int \<times> string" where
  "changeKey c = (clock c, pid c)"

definition sortChanges :: "Change list \<Rightarrow> Change list" where
  "sortChanges cs = sort_key changeKey cs"

text \<open>
  Modelled from the spec: \<open>ensureBackendChange\<close> (Change.ts) normalises a submitted
  change into the representation of the log. The changes of this model are already in
  that representation, on which the normalisation changes nothing.
\<close>

definition ensureBackendChange :: "Change \<Rightarrow> Change" where
  "ensureBackendChange c = c"

subsection \<open>The list helpers of ArrayUtils.ts\<close>

text \<open>
  Modelled from the spec: \<open>findIndexInTombstoneArray\<close>, \<open>findInsertionIndex\<close>,
  \<open>insertInList\<close> and \<open>assignToList\<close> (ArrayUtils.ts) and \<open>ensureNumber\<close> (Util.ts) are
  not part of the sources at hand. The spec (4.4) gives: the physical slot of a logical
  position counts live entries only and is absent out of range; the insertion point
  starts behind the anchor and walks past the entries whose identity sorts before the
  new one; insertion splices a live entry in; overwriting resolves the logical position
  first. Where the spec is silent the model takes the neutral reading: an anchor that no
  entry carries starts the walk at the head, an overwrite out of range changes no slot,
  a key given where a position is needed is a failed conversion, and the sentinel
  identity sorts before the identities of operations with a positive clock.
\<close>

fun findIndexInTombstoneArray :: "Entry list \<Rightarrow> nat \<Rightarrow> nat option" where
  "findIndexInTombstoneArray [] n = None"
| "findIndexInTombstoneArray (e # es) n =
     (if deleted e then map_option Suc (findIndexInTombstoneArray es n)
      else (case n of 0 \<Rightarrow> Some 0
            | Suc m \<Rightarrow> map_option Suc (findIndexInTombstoneArray es m)))"

fun idKey :: "ID \<Rightarrow> int \<times> string" where
  "idKey ROOT_PARENT = (0, [])"
| "idKey (OpID p c) = (c, p)"

definition sortsBefore :: "ID option \<Rightarrow> ID \<Rightarrow> bool" where
  "sortsBefore a b = (case a of None \<Rightarrow> False | Some x \<Rightarrow> idKey x < idKey b)"

fun findAnchor :: "Entry list \<Rightarrow> ID \<Rightarrow> nat option" where
  "findAnchor [] a = None"
| "findAnchor (e # es) a =
     (if name e = Some a then Some 0 else map_option Suc (findAnchor es a))"

definition findInsertionIndex :: "Entry list \<Rightarrow> BackendPrimitive \<Rightarrow> ID option \<Rightarrow> nat" where
  "findInsertionIndex list item anchor =
     (let start = (case anchor of None \<Rightarrow> 0
                   | Some a \<Rightarrow> (case findAnchor list a of None \<Rightarrow> 0 | Some i \<Rightarrow> Suc i))
      in start + length (takeWhile (\<lambda>e. sortsBefore (name e) (item_name item)) (drop start list)))"

definition toEntry :: "BackendPrimitive \<Rightarrow> Entry" where
  "toEntry item =
     \<lparr>name = Some (item_name item), val = item_value item, kind = item_kind item, deleted = False\<rparr>"

definition insertInList :: "Entry list \<Rightarrow> nat \<Rightarrow> BackendPrimitive \<Rightarrow> Entry list" where
  "insertInList list i item = take i list @ toEntry item # drop i list"

definition assignToList :: "Entry list \<Rightarrow> nat \<Rightarrow> BackendPrimitive \<Rightarrow> Entry list" where
  "assignToList list n item =
     (case findIndexInTombstoneArray list n of
        None \<Rightarrow> list
      | Some i \<Rightarrow> list[i := toEntry item])"

fun ensureNumber :: "Index \<Rightarrow> error + nat" where
  "ensureNumber (Pos n) = Inr n"
| "ensureNumber (Key k) = Inl (TypeError ''not a number'')"

subsection \<open>The container arena\<close>

text \<open>
  The fields of the class. A field cannot share its name with a field of \<open>Change\<close> or
  with a method, so \<open>clock\<close> is \<open>clock_hw\<close> and \<open>_seen\<close> is \<open>seen_ids\<close> here (as
  \<open>value\<close> is \<open>val\<close> in \<open>Entry\<close>).
\<close>

record State =
  changes :: "Change list"
  seen_ids :: "ID set"
  clock_hw :: int
  objects :: MetaMap

text \<open>\<open>getMetaObject\<close>: the container stored under a name, or the RangeError of line 133.
  The name is a JavaScript value; only an identity can be a key of the arena.\<close>

definition getMetaObject :: "MetaMap \<Rightarrow> Val \<Rightarrow> error + MetaObject" where
  "getMetaObject objs n =
     (case n of
        VId i \<Rightarrow> (case map_of objs i of
                    None \<Rightarrow> Inl (RangeError ''Indexable element does not exist at this index'')
                  | Some m \<Rightarrow> Inr m)
      | _ \<Rightarrow> Inl (RangeError ''Indexable element does not exist at this index''))"

definition createMetaObject :: "MetaMap \<Rightarrow> BackendPrimitive \<Rightarrow> MetaMap" where
  "createMetaObject objs item =
     (if item_kind item = OBJECT then AList.update (item_name item) (MetaMapObj []) objs
      else if item_kind item = ARRAY then AList.update (item_name item) (MetaArray []) objs
      else objs)"

subsection \<open>Applying one operation\<close>

text \<open>
  Each of the four methods looks the parent up, throws or mutates the parent in place,
  and then creates the child container. Every throw comes before the first mutation, so
  a method that fails leaves the arena as it was: the result is either the error or the
  new arena.
\<close>

definition applyAssignment :: "MetaMap \<Rightarrow> BackendPrimitive \<Rightarrow> Index \<Rightarrow> ID \<Rightarrow> error + MetaMap" where
  "applyAssignment objs item at_ix in_id =
     (case getMetaObject objs (VId in_id) of
        Inl e \<Rightarrow> Inl e
      | Inr (MetaArray l) \<Rightarrow> Inl (EvalError ''Key assignment into a list should never happen'')
      | Inr (MetaMapObj m) \<Rightarrow>
          Inr (createMetaObject
                 (AList.update in_id (MetaMapObj (AList.update at_ix (toEntry item) m)) objs) item))"

definition applyListAssignment :: "MetaMap \<Rightarrow> BackendPrimitive \<Rightarrow> nat \<Rightarrow> ID \<Rightarrow> error + MetaMap" where
  "applyListAssignment objs item at_ix in_id =
     (case getMetaObject objs (VId in_id) of
        Inl e \<Rightarrow> Inl e
      | Inr (MetaArray l) \<Rightarrow>
          Inr (createMetaObject
                 (AList.update in_id (MetaArray (assignToList l at_ix item)) objs) item)
      | Inr (MetaMapObj m) \<Rightarrow>
          Inl (EvalError ''Index assignment into an object should never happen''))"

definition applyInsertion :: "MetaMap \<Rightarrow> BackendPrimitive \<Rightarrow> ID option \<Rightarrow> ID \<Rightarrow> error + MetaMap" where
  "applyInsertion objs item anchor in_id =
     (case getMetaObject objs (VId in_id) of
        Inl e \<Rightarrow> Inl e
      | Inr (MetaArray l) \<Rightarrow>
          Inr (createMetaObject
                 (AList.update in_id
                    (MetaArray (insertInList l (findInsertionIndex l item anchor) item)) objs) item)
      | Inr (MetaMapObj m) \<Rightarrow> Inl (RangeError ''Cannot insert into a non-list''))"

definition tombstone :: "ID \<Rightarrow> Entry \<Rightarrow> Entry" where
  "tombstone at_id e = (if name e = Some at_id then e\<lparr>deleted := True\<rparr> else e)"

definition applyDeletion :: "MetaMap \<Rightarrow> ID \<Rightarrow> ID \<Rightarrow> error + MetaMap" where
  "applyDeletion objs at_id in_id =
     (case getMetaObject objs (VId in_id) of
        Inl e \<Rightarrow> Inl e
      | Inr (MetaArray l) \<Rightarrow>
          Inr (AList.update in_id (MetaArray (map (tombstone at_id) l)) objs)
      | Inr (MetaMapObj m) \<Rightarrow>
          Inr (AList.update in_id (MetaMapObj (map (\<lambda>(k, e). (k, tombstone at_id e)) m)) objs))"

fun applyAction :: "MetaMap \<Rightarrow> Action \<Rightarrow> error + MetaMap" where
  "applyAction objs (Assignment item at_ix in_id) = applyAssignment objs item at_ix in_id"
| "applyAction objs (ListAssignment item at_ix in_id) = applyListAssignment objs item at_ix in_id"
| "applyAction objs (Insertion item anchor in_id) = applyInsertion objs item anchor in_id"
| "applyAction objs (Deletion at_id in_id) = applyDeletion objs at_id in_id"

definition applyChange :: "MetaMap \<Rightarrow> Change \<Rightarrow> error + MetaMap" where
  "applyChange objs c = applyAction objs (action c)"

subsection \<open>The replay engine\<close>

definition emptyObjects :: MetaMap where
  "emptyObjects =
     [(ROOT_PARENT,
       MetaMapObj [(ROOT, \<lparr>name = None, val = VUndefined, kind = OTHER, deleted = True\<rparr>)])]"

definition seen :: "State \<Rightarrow> ID \<Rightarrow> bool" where
  "seen s i = (i \<in> seen_ids s)"

definition witness :: "State \<Rightarrow> Change list \<Rightarrow> State" where
  "witness s cs = s\<lparr>seen_ids := seen_ids s \<union> set (map toID cs)\<rparr>"

text \<open>\<open>next\<close> of the source; the name is taken in Isabelle. Clocks are integers here; the
  numbers of the source are doubles, which agree with them on \<open>clock + 1\<close> below
  \<open>2 ^ 53\<close>.\<close>

definition nextClock :: "State \<Rightarrow> int" where
  "nextClock s = clock_hw s + 1"

definition latest :: "State \<Rightarrow> ID option" where
  "latest s = (if changes s \<noteq> [] then Some (toID (last (changes s))) else None)"

definition listChanges :: "State \<Rightarrow> Change list" where
  "listChanges s = changes s"

text \<open>The \<open>forEach\<close> of \<open>applyChanges\<close>: the first throw ends the pass and leaves the arena
  as the operations before it made it.\<close>

fun forEachApply :: "MetaMap \<Rightarrow> Change list \<Rightarrow> MetaMap \<times> error option" where
  "forEachApply objs [] = (objs, None)"
| "forEachApply objs (c # cs) =
     (case applyChange objs c of
        Inl e \<Rightarrow> (objs, Some e)
      | Inr objs' \<Rightarrow> forEachApply objs' cs)"

text \<open>The gate of line 113: \<open>!change.dep || this.seen(change.dep)\<close>.\<close>

definition eligible :: "State \<Rightarrow> Change \<Rightarrow> bool" where
  "eligible s c = (case dep c of None \<Rightarrow> True | Some d \<Rightarrow> seen s d)"

definition applyChanges :: "State \<Rightarrow> Change list \<Rightarrow> State \<times> error option" where
  "applyChanges s cs =
     (case forEachApply (objects s) (filter (eligible s) cs) of
        (objs, e) \<Rightarrow> (s\<lparr>objects := objs\<rparr>, e))"

definition reapplyAllChanges :: "State \<Rightarrow> State \<times> error option" where
  "reapplyAllChanges s = applyChanges (s\<lparr>objects := emptyObjects\<rparr>) (changes s)"

definition appendChanges :: "State \<Rightarrow> Change list \<Rightarrow> State" where
  "appendChanges s cs = s\<lparr>clock_hw := clock (last cs), changes := changes s @ cs\<rparr>"

definition insertChanges :: "State \<Rightarrow> Change list \<Rightarrow> State" where
  "insertChanges s cs = s\<lparr>changes := sortChanges (changes s @ cs)\<rparr>"

definition finish :: "Change list \<Rightarrow> State \<times> error option \<Rightarrow> State \<times> (error + Change list)" where
  "finish backendChanges r =
     (case r of (s, None) \<Rightarrow> (s, Inr backendChanges) | (s, Some e) \<Rightarrow> (s, Inl e))"

definition addChange :: "State \<Rightarrow> Change list \<Rightarrow> State \<times> (error + Change list)" where
  "addChange s cs =
     (let backendChanges =
            sortChanges (map ensureBackendChange (filter (\<lambda>c. \<not> seen s (toID c)) cs));
          s1 = witness s backendChanges
      in if backendChanges \<noteq> [] \<and> clock (hd backendChanges) > clock_hw s1
         then finish backendChanges (applyChanges (appendChanges s1 backendChanges) backendChanges)
         else if backendChanges \<noteq> []
         then finish backendChanges (reapplyAllChanges (insertChanges s1 backendChanges))
         else (s1, Inr backendChanges))"

text \<open>The constructor: the clock of the last change of the given log (0 for an empty
  log), every change witnessed, and one full replay.\<close>

definition newState :: "Change list \<Rightarrow> State \<times> error option" where
  "newState cs =
     reapplyAllChanges
       (witness \<lparr>changes = cs, seen_ids = {},
                 clock_hw = (if cs = [] then 0 else clock (last cs)), objects = []\<rparr> cs)"

subsection \<open>Path resolution\<close>

definition lookupEntry :: "MetaObject \<Rightarrow> Index \<Rightarrow> error + Entry option" where
  "lookupEntry mo index =
     (case mo of
        MetaMapObj m \<Rightarrow> Inr (map_of m index)
      | MetaArray l \<Rightarrow>
          (case ensureNumber index of
             Inl e \<Rightarrow> Inl e
           | Inr n \<Rightarrow>
               Inr (case findIndexInTombstoneArray l n of
                      None \<Rightarrow> None
                    | Some i \<Rightarrow> (if i < length l then Some (l ! i) else None))))"

text \<open>Lines 73 and 74, where a missing entry makes every \<open>entry?.\<close> read \<open>undefined\<close>.\<close>

definition nextName :: "Entry option \<Rightarrow> Val" where
  "nextName entry =
     (case entry of
        None \<Rightarrow> VUndefined
      | Some e \<Rightarrow>
          (if deleted e then VUndefined
           else if kind e = OTHER then (case name e of None \<Rightarrow> VUndefined | Some i \<Rightarrow> VId i)
           else val e))"

definition resolveStep :: "MetaMap \<Rightarrow> Val \<Rightarrow> Index \<Rightarrow> error + Val" where
  "resolveStep objs n index =
     (case getMetaObject objs n of
        Inl e \<Rightarrow> Inl e
      | Inr mo \<Rightarrow> (case lookupEntry mo index of Inl e \<Rightarrow> Inl e | Inr entry \<Rightarrow> Inr (nextName entry)))"

fun reduceSteps :: "MetaMap \<Rightarrow> Val \<Rightarrow> Index list \<Rightarrow> error + Val" where
  "reduceSteps objs n [] = Inr n"
| "reduceSteps objs n (i # is) =
     (case resolveStep objs n i of Inl e \<Rightarrow> Inl e | Inr n' \<Rightarrow> reduceSteps objs n' is)"

definition getElementImpl :: "MetaMap \<Rightarrow> Index list \<Rightarrow> error + Val" where
  "getElementImpl objs indices = reduceSteps objs (VId ROOT_PARENT) indices"

definition getElement :: "State \<Rightarrow> Index list \<Rightarrow> error + Val" where
  "getElement s indices = getElementImpl (objects s) (ROOT # indices)"

definition getParentElement :: "State \<Rightarrow> Index list \<Rightarrow> error + Val" where
  "getParentElement s indices =
     (case getElementImpl (objects s) (butlast (ROOT # indices)) of
        Inl e \<Rightarrow> Inl e
      | Inr element \<Rightarrow>
          (case getMetaObject (objects s) element of Inl e \<Rightarrow> Inl e | Inr mo \<Rightarrow> Inr element))"

subsection \<open>Vocabulary of the statements\<close>

text \<open>The entries of a container in their stored order.\<close>

definition entriesOf :: "MetaObject \<Rightarrow> Entry list" where
  "entriesOf mo = (case mo of MetaMapObj m \<Rightarrow> map snd m | MetaArray l \<Rightarrow> l)"

text \<open>What \<open>applyDeletion\<close> makes of the parent container, for either shape.\<close>

definition tombstoneAll :: "ID \<Rightarrow> MetaObject \<Rightarrow> MetaObject" where
  "tombstoneAll at_id mo =
     (case mo of
        MetaMapObj m \<Rightarrow> MetaMapObj (map (\<lambda>(k, e). (k, tombstone at_id e)) m)
      | MetaArray l \<Rightarrow> MetaArray (map (tombstone at_id) l))"

fun itemOf :: "Action \<Rightarrow> BackendPrimitive option" where
  "itemOf (Assignment item k i) = Some item"
| "itemOf (ListAssignment item n i) = Some item"
| "itemOf (Insertion item a i) = Some item"
| "itemOf (Deletion a i) = None"

text \<open>An operation re-creates the container \<open>n\<close> when its item is of map or list kind
  and carries the identity \<open>n\<close>: \<open>createMetaObject\<close> then stores an empty container
  under \<open>n\<close>, whatever was there.\<close>

definition recreates :: "Action \<Rightarrow> ID \<Rightarrow> bool" where
  "recreates a n =
     (case itemOf a of None \<Rightarrow> False | Some item \<Rightarrow> item_kind item \<noteq> OTHER \<and> item_name item = n)"

fun assignedKey :: "Action \<Rightarrow> ID \<Rightarrow> Index option" where
  "assignedKey (Assignment item k i) n = (if i = n then Some k else None)"
| "assignedKey a n = None"

text \<open>The second container keeps the tombstones of the first: in a map every
  tombstoned entry is still stored under its key (the key \<open>exc\<close> excepted), in a list
  the tombstoned entries are still there in their order.\<close>

definition keepsTombstones :: "Index option \<Rightarrow> MetaObject \<Rightarrow> MetaObject \<Rightarrow> bool" where
  "keepsTombstones exc mo mo' =
     (case (mo, mo') of
        (MetaMapObj m, MetaMapObj m') \<Rightarrow>
          list_all (\<lambda>(k, e). if deleted e \<and> Some k \<noteq> exc then (k, e) \<in> set m' else True) m
      | (MetaArray l, MetaArray l') \<Rightarrow> subseq (filter deleted l) (filter deleted l')
      | _ \<Rightarrow> False)"

text \<open>The batch that \<open>addChange\<close> accepts: its \<open>backendChanges\<close>.\<close>

definition accepted :: "State \<Rightarrow> Change list \<Rightarrow> Change list" where
  "accepted s cs = sortChanges (map ensureBackendChange (filter (\<lambda>c. \<not> seen s (toID c)) cs))"

text \<open>The two branches of lines 84 to 90.\<close>

definition fastPath :: "State \<Rightarrow> Change list \<Rightarrow> bool" where
  "fastPath s cs = (accepted s cs \<noteq> [] \<and> clock_hw s < clock (hd (accepted s cs)))"

definition slowPath :: "State \<Rightarrow> Change list \<Rightarrow> bool" where
  "slowPath s cs = (accepted s cs \<noteq> [] \<and> clock (hd (accepted s cs)) \<le> clock_hw s)"

subsection \<open>Concrete stores and operations\<close>

text \<open>A document \<open>{l: [1]}\<close> whose key \<open>k\<close> and whose second list element were deleted.\<close>

definition exampleStore :: MetaMap where
  "exampleStore =
     [(ROOT_PARENT,
       MetaMapObj [(ROOT, \<lparr>name = Some (OpID ''a'' 1), val = VId (OpID ''a'' 1), kind = OBJECT, deleted = False\<rparr>)]),
      (OpID ''a'' 1,
       MetaMapObj [(Key ''k'', \<lparr>name = Some (OpID ''a'' 2), val = VNum 7, kind = OTHER, deleted = True\<rparr>),
                   (Key ''l'', \<lparr>name = Some (OpID ''a'' 3), val = VId (OpID ''a'' 3), kind = ARRAY, deleted = False\<rparr>)]),
      (OpID ''a'' 3,
       MetaArray [\<lparr>name = Some (OpID ''a'' 4), val = VNum 1, kind = OTHER, deleted = False\<rparr>,
                  \<lparr>name = Some (OpID ''a'' 5), val = VNum 2, kind = OTHER, deleted = True\<rparr>])]"

definition reassignK :: Change where
  "reassignK = \<lparr>pid = ''b'', clock = 6, dep = None,
      action = Assignment \<lparr>item_name = OpID ''b'' 6, item_value = VNum 8, item_kind = OTHER\<rparr>
                 (Key ''k'') (OpID ''a'' 1)\<rparr>"

definition insertAfterFirst :: Change where
  "insertAfterFirst = \<lparr>pid = ''b'', clock = 7, dep = None,
      action = Insertion \<lparr>item_name = OpID ''b'' 7, item_value = VNum 9, item_kind = OTHER\<rparr>
                 (Some (OpID ''a'' 4)) (OpID ''a'' 3)\<rparr>"

text \<open>A sequence of submissions to one State, up to the first that raises.\<close>

fun submitAll :: "State \<Rightarrow> Change list list \<Rightarrow> State \<times> error option" where
  "submitAll s [] = (s, None)"
| "submitAll s (b # bs) =
     (case addChange s b of (s', Inl e) \<Rightarrow> (s', Some e) | (s', Inr r) \<Rightarrow> submitAll s' bs)"

text \<open>\<open>setRoot p c\<close>: site \<open>p\<close> sets the document to the number \<open>c\<close> at clock \<open>c\<close>.\<close>

definition setRoot :: "string \<Rightarrow> int \<Rightarrow> Change" where
  "setRoot p c =
     \<lparr>pid = p, clock = c, dep = None,
      action = Assignment \<lparr>item_name = OpID p c, item_value = VNum c, item_kind = OTHER\<rparr>
                 ROOT ROOT_PARENT\<rparr>"

text \<open>\<open>makeRoot\<close>: the document becomes an empty object, at clock 1.\<close>

definition makeRoot :: Change where
  "makeRoot =
     \<lparr>pid = ''r'', clock = 1, dep = None,
      action = Assignment \<lparr>item_name = OpID ''r'' 1, item_value = VId (OpID ''r'' 1), item_kind = OBJECT\<rparr>
                 ROOT ROOT_PARENT\<rparr>"

text \<open>\<open>setKey k c d\<close>: site \<open>a\<close> sets the key \<open>k\<close> of that object to \<open>c\<close> at clock \<open>c\<close>,
  depending on \<open>d\<close>.\<close>

definition setKey :: "string \<Rightarrow> int \<Rightarrow> ID option \<Rightarrow> Change" where
  "setKey k c d =
     \<lparr>pid = ''a'', clock = c, dep = d,
      action = Assignment \<lparr>item_name = OpID ''a'' c, item_value = VNum c, item_kind = OTHER\<rparr>
                 (Key k) (OpID ''r'' 1)\<rparr>"

text \<open>\<open>makeList\<close>: the document becomes an empty list, at clock 1; \<open>insertHead c\<close>:
  site \<open>a\<close> inserts the number \<open>c\<close> at the head of that list at clock \<open>c\<close>.\<close>

definition makeList :: Change where
  "makeList =
     \<lparr>pid = ''r'', clock = 1, dep = None,
      action = Assignment \<lparr>item_name = OpID ''r'' 1, item_value = VId (OpID ''r'' 1), item_kind = ARRAY\<rparr>
                 ROOT ROOT_PARENT\<rparr>"

definition insertHead :: "int \<Rightarrow> Change" where
  "insertHead c =
     \<lparr>pid = ''a'', clock = c, dep = None,
      action = Insertion \<lparr>item_name = OpID ''a'' c, item_value = VNum c, item_kind = OTHER\<rparr>
                 None (OpID ''r'' 1)\<rparr>"

section \<open>Properties\<close>

subsection \<open>Basic facts about the arena\<close>

lemma map_of_createMetaObject:
  "map_of (createMetaObject objs item) n =
     (if item_kind item = OBJECT \<and> item_name item = n then Some (MetaMapObj [])
      else if item_kind item = ARRAY \<and> item_name item = n then Some (MetaArray [])
      else map_of objs n)"
  by (simp add: createMetaObject_def update_conv')

lemma tombstone_idem: "deleted e \<Longrightarrow> tombstone a e = e"
  by (simp add: tombstone_def)

lemma map_tombstone_noop:
  "\<forall>e\<in>set l. name e = Some a \<longrightarrow> deleted e \<Longrightarrow> map (tombstone a) l = l"
  by (induction l) (auto simp: tombstone_def)

lemma map_tombstone_pairs_noop:
  "\<forall>e\<in>set (map snd m). name e = Some a \<longrightarrow> deleted e \<Longrightarrow>
     map (\<lambda>(k, e). (k, tombstone a e)) m = m"
  by (induction m) (auto simp: tombstone_def)

lemma tombstoneAll_noop:
  "\<forall>e\<in>set (entriesOf mo). name e = Some a \<longrightarrow> deleted e \<Longrightarrow> tombstoneAll a mo = mo"
  by (cases mo) (simp_all add: tombstoneAll_def entriesOf_def map_tombstone_noop
      map_tombstone_pairs_noop del: set_map)

lemma applyDeletion_found:
  "map_of objs i = Some mo \<Longrightarrow>
     applyDeletion objs a i = Inr (AList.update i (tombstoneAll a mo) objs)"
  by (cases mo) (simp_all add: applyDeletion_def getMetaObject_def tombstoneAll_def)

subsection \<open>Operations on a container of the wrong shape\<close>

text \<open>
  C5. An Assign whose parent is a list, and a ListAssign or an Insert whose parent is a
  map, raise: the first two the EvalError of lines 152 and 165, the Insert the RangeError
  of line 178. The throw comes before any write, so the arena after the failed operation
  is the arena before it, and the pass stops there: the operations behind it in the
  pass are not applied.
\<close>

theorem structural_conflict_raises:
  "(map_of objs i = Some (MetaArray l) \<longrightarrow> action c = Assignment item k i \<longrightarrow>
      applyChange objs c = Inl (EvalError ''Key assignment into a list should never happen'')
      \<and> forEachApply objs (c # cs)
          = (objs, Some (EvalError ''Key assignment into a list should never happen'')))
   \<and> (map_of objs i = Some (MetaMapObj m) \<longrightarrow> action c = ListAssignment item n i \<longrightarrow>
      applyChange objs c = Inl (EvalError ''Index assignment into an object should never happen'')
      \<and> forEachApply objs (c # cs)
          = (objs, Some (EvalError ''Index assignment into an object should never happen'')))
   \<and> (map_of objs i = Some (MetaMapObj m) \<longrightarrow> action c = Insertion item a i \<longrightarrow>
      applyChange objs c = Inl (RangeError ''Cannot insert into a non-list'')
      \<and> forEachApply objs (c # cs) = (objs, Some (RangeError ''Cannot insert into a non-list'')))"
  by (simp add: applyChange_def applyAssignment_def applyListAssignment_def applyInsertion_def
      getMetaObject_def)

theorem structural_conflict_raises_witness:
  "map_of exampleStore (OpID ''a'' 3)
     = Some (MetaArray [\<lparr>name = Some (OpID ''a'' 4), val = VNum 1, kind = OTHER, deleted = False\<rparr>,
                  \<lparr>name = Some (OpID ''a'' 5), val = VNum 2, kind = OTHER, deleted = True\<rparr>])
   \<and> forEachApply exampleStore
        [\<lparr>pid = ''b'', clock = 6, dep = None,
          action = Assignment \<lparr>item_name = OpID ''b'' 6, item_value = VNum 3, item_kind = OTHER\<rparr>
                     (Key ''x'') (OpID ''a'' 3)\<rparr>]
       = (exampleStore, Some (EvalError ''Key assignment into a list should never happen''))
   \<and> map_of exampleStore (OpID ''a'' 1)
     = Some (MetaMapObj
         [(Key ''k'', \<lparr>name = Some (OpID ''a'' 2), val = VNum 7, kind = OTHER, deleted = True\<rparr>),
          (Key ''l'', \<lparr>name = Some (OpID ''a'' 3), val = VId (OpID ''a'' 3), kind = ARRAY, deleted = False\<rparr>)])
   \<and> forEachApply exampleStore
        [\<lparr>pid = ''b'', clock = 6, dep = None,
          action = Insertion \<lparr>item_name = OpID ''b'' 6, item_value = VNum 3, item_kind = OTHER\<rparr>
                     None (OpID ''a'' 1)\<rparr>]
       = (exampleStore, Some (RangeError ''Cannot insert into a non-list''))"
  using structural_conflict_raises
    [where objs = exampleStore and i = "OpID ''a'' 3"
       and l = "[\<lparr>name = Some (OpID ''a'' 4), val = VNum 1, kind = OTHER, deleted = False\<rparr>,
          \<lparr>name = Some (OpID ''a'' 5), val = VNum 2, kind = OTHER, deleted = True\<rparr>]"
       and c = "\<lparr>pid = ''b'', clock = 6, dep = None,
          action = Assignment \<lparr>item_name = OpID ''b'' 6, item_value = VNum 3, item_kind = OTHER\<rparr>
                     (Key ''x'') (OpID ''a'' 3)\<rparr>"
       and item = "\<lparr>item_name = OpID ''b'' 6, item_value = VNum 3, item_kind = OTHER\<rparr>"
       and k = "Key ''x''" and cs = "[]"]
    structural_conflict_raises
    [where objs = exampleStore and i = "OpID ''a'' 1"
       and m = "[(Key ''k'', \<lparr>name = Some (OpID ''a'' 2), val = VNum 7, kind = OTHER, deleted = True\<rparr>),
          (Key ''l'', \<lparr>name = Some (OpID ''a'' 3), val = VId (OpID ''a'' 3), kind = ARRAY, deleted = False\<rparr>)]"
       and c = "\<lparr>pid = ''b'', clock = 6, dep = None,
          action = Insertion \<lparr>item_name = OpID ''b'' 6, item_value = VNum 3, item_kind = OTHER\<rparr>
                     None (OpID ''a'' 1)\<rparr>"
       and item = "\<lparr>item_name = OpID ''b'' 6, item_value = VNum 3, item_kind = OTHER\<rparr>"
       and a = None and cs = "[]"]
  by (simp add: exampleStore_def)

subsection \<open>Deletion\<close>

text \<open>
  C6, as stated, fails: \<open>applyDeletion\<close> starts with \<open>getMetaObject\<close>, which throws when
  the arena has no container under the name of the parent. A Delete whose parent
  container does not exist raises the RangeError of line 133.
\<close>

theorem deletion_raises_counterexample:
  "applyChange emptyObjects
     \<lparr>pid = ''a'', clock = 1, dep = None, action = Deletion (OpID ''b'' 2) (OpID ''c'' 3)\<rparr>
   = Inl (RangeError ''Indexable element does not exist at this index'')"
  by (simp add: applyChange_def applyDeletion_def getMetaObject_def emptyObjects_def)

text \<open>
  C6, amended. A Delete whose parent container does not exist raises a RangeError. A
  Delete whose parent container exists raises nothing: it replaces the parent by the
  container in which every entry whose identity is the target is flagged deleted and
  every other entry is as it was, slot by slot; and when no live entry of the parent
  carries the target (it is absent, or tombstoned already) the arena does not change.
\<close>

theorem deletion_tolerated_in_existing_parent:
  "(map_of objs i = None \<longrightarrow>
      applyDeletion objs a i = Inl (RangeError ''Indexable element does not exist at this index''))
   \<and> (map_of objs i = Some mo \<longrightarrow>
        applyDeletion objs a i = Inr (AList.update i (tombstoneAll a mo) objs)
        \<and> length (entriesOf (tombstoneAll a mo)) = length (entriesOf mo)
        \<and> (\<forall>j < length (entriesOf mo).
              entriesOf (tombstoneAll a mo) ! j =
                (if name (entriesOf mo ! j) = Some a then (entriesOf mo ! j)\<lparr>deleted := True\<rparr>
                 else entriesOf mo ! j))
        \<and> ((\<forall>e\<in>set (entriesOf mo). name e = Some a \<longrightarrow> deleted e) \<longrightarrow>
              applyDeletion objs a i = Inr objs))"
proof (intro conjI impI)
  assume "map_of objs i = None"
  then show "applyDeletion objs a i = Inl (RangeError ''Indexable element does not exist at this index'')"
    by (simp add: applyDeletion_def getMetaObject_def)
next
  assume f: "map_of objs i = Some mo"
  then show "applyDeletion objs a i = Inr (AList.update i (tombstoneAll a mo) objs)"
    by (rule applyDeletion_found)
  show "length (entriesOf (tombstoneAll a mo)) = length (entriesOf mo)"
    by (cases mo) (simp_all add: tombstoneAll_def entriesOf_def)
  show "\<forall>j < length (entriesOf mo).
              entriesOf (tombstoneAll a mo) ! j =
                (if name (entriesOf mo ! j) = Some a then (entriesOf mo ! j)\<lparr>deleted := True\<rparr>
                 else entriesOf mo ! j)"
    by (cases mo) (auto simp: tombstoneAll_def entriesOf_def tombstone_def split_beta)
  assume "\<forall>e\<in>set (entriesOf mo). name e = Some a \<longrightarrow> deleted e"
  then have "tombstoneAll a mo = mo" by (rule tombstoneAll_noop)
  with f show "applyDeletion objs a i = Inr objs"
    by (simp add: applyDeletion_found update_triv)
qed

theorem deletion_tolerated_in_existing_parent_witness:
  "map_of exampleStore (OpID ''a'' 3)
     = Some (MetaArray [\<lparr>name = Some (OpID ''a'' 4), val = VNum 1, kind = OTHER, deleted = False\<rparr>,
                  \<lparr>name = Some (OpID ''a'' 5), val = VNum 2, kind = OTHER, deleted = True\<rparr>])
   \<and> applyDeletion exampleStore (OpID ''a'' 4) (OpID ''a'' 3)
     = Inr (AList.update (OpID ''a'' 3)
         (MetaArray [\<lparr>name = Some (OpID ''a'' 4), val = VNum 1, kind = OTHER, deleted = True\<rparr>,
                  \<lparr>name = Some (OpID ''a'' 5), val = VNum 2, kind = OTHER, deleted = True\<rparr>])
         exampleStore)
   \<and> applyDeletion exampleStore (OpID ''a'' 5) (OpID ''a'' 3) = Inr exampleStore
   \<and> applyDeletion exampleStore (OpID ''a'' 9) (OpID ''a'' 3) = Inr exampleStore
   \<and> map_of exampleStore (OpID ''z'' 9) = None
   \<and> applyDeletion exampleStore (OpID ''a'' 4) (OpID ''z'' 9)
     = Inl (RangeError ''Indexable element does not exist at this index'')"
proof -
  let ?l = "MetaArray [\<lparr>name = Some (OpID ''a'' 4), val = VNum 1, kind = OTHER, deleted = False\<rparr>,
                  \<lparr>name = Some (OpID ''a'' 5), val = VNum 2, kind = OTHER, deleted = True\<rparr>]"
  have h: "map_of exampleStore (OpID ''a'' 3) = Some ?l"
    by (simp add: exampleStore_def)
  have z: "map_of exampleStore (OpID ''z'' 9) = None"
    by (simp add: exampleStore_def)
  have n5: "\<forall>e\<in>set (entriesOf ?l). name e = Some (OpID ''a'' 5) \<longrightarrow> deleted e"
    by (simp add: entriesOf_def)
  have n9: "\<forall>e\<in>set (entriesOf ?l). name e = Some (OpID ''a'' 9) \<longrightarrow> deleted e"
    by (simp add: entriesOf_def)
  from deletion_tolerated_in_existing_parent
         [where objs = exampleStore and i = "OpID ''a'' 3" and a = "OpID ''a'' 4" and mo = ?l] h
  have d4: "applyDeletion exampleStore (OpID ''a'' 4) (OpID ''a'' 3)
              = Inr (AList.update (OpID ''a'' 3) (tombstoneAll (OpID ''a'' 4) ?l) exampleStore)"
    by blast
  from deletion_tolerated_in_existing_parent
         [where objs = exampleStore and i = "OpID ''a'' 3" and a = "OpID ''a'' 5" and mo = ?l] h n5
  have d5: "applyDeletion exampleStore (OpID ''a'' 5) (OpID ''a'' 3) = Inr exampleStore"
    by blast
  from deletion_tolerated_in_existing_parent
         [where objs = exampleStore and i = "OpID ''a'' 3" and a = "OpID ''a'' 9" and mo = ?l] h n9
  have d9: "applyDeletion exampleStore (OpID ''a'' 9) (OpID ''a'' 3) = Inr exampleStore"
    by blast
  from deletion_tolerated_in_existing_parent
         [where objs = exampleStore and i = "OpID ''z'' 9" and a = "OpID ''a'' 4" and mo = ?l] z
  have dz: "applyDeletion exampleStore (OpID ''a'' 4) (OpID ''z'' 9)
              = Inl (RangeError ''Indexable element does not exist at this index'')"
    by blast
  from d4 have d4': "applyDeletion exampleStore (OpID ''a'' 4) (OpID ''a'' 3)
     = Inr (AList.update (OpID ''a'' 3)
         (MetaArray [\<lparr>name = Some (OpID ''a'' 4), val = VNum 1, kind = OTHER, deleted = True\<rparr>,
                  \<lparr>name = Some (OpID ''a'' 5), val = VNum 2, kind = OTHER, deleted = True\<rparr>])
         exampleStore)"
    by (simp add: tombstoneAll_def tombstone_def)
  from h z d4' d5 d9 dz show ?thesis by blast
qed

subsection \<open>Tombstones\<close>

lemma keepsTombstones_refl: "keepsTombstones exc mo mo"
  by (cases mo) (auto simp: keepsTombstones_def list_all_iff)

lemma findIndex_live:
  "findIndexInTombstoneArray l n = Some i \<Longrightarrow> i < length l \<and> \<not> deleted (l ! i)"
proof (induction l n arbitrary: i rule: findIndexInTombstoneArray.induct)
  case (1 n)
  then show ?case by simp
next
  case (2 e es n)
  then show ?case by (auto split: if_splits nat.splits)
qed

lemma filter_update_same:
  "i < length l \<Longrightarrow> \<not> P (l ! i) \<Longrightarrow> \<not> P e \<Longrightarrow> filter P (l[i := e]) = filter P l"
proof -
  assume a: "i < length l" "\<not> P (l ! i)" "\<not> P e"
  have "filter P (l[i := e]) = filter P (take i l @ e # drop (Suc i) l)"
    using a(1) by (simp add: upd_conv_take_nth_drop)
  also have "\<dots> = filter P (take i l @ l ! i # drop (Suc i) l)"
    using a by simp
  also have "\<dots> = filter P l"
    using a(1) by (simp add: id_take_nth_drop [symmetric])
  finally show ?thesis .
qed

lemma tombstones_assignToList:
  "filter deleted (assignToList l n item) = filter deleted l"
  by (auto simp: assignToList_def toEntry_def filter_update_same dest: findIndex_live
      split: option.splits)

lemma tombstones_insertInList:
  "filter deleted (insertInList l i item) = filter deleted l"
proof -
  have "filter deleted (take i l) @ filter deleted (drop i l) = filter deleted (take i l @ drop i l)"
    by (rule filter_append [symmetric])
  also have "\<dots> = filter deleted l"
    by (rule arg_cong [OF append_take_drop_id])
  finally show ?thesis by (simp add: insertInList_def toEntry_def)
qed

lemma tombstones_delete_list:
  "subseq (filter deleted l) (filter deleted (map (tombstone a) l))"
  by (induction l) (auto simp: tombstone_def)

lemma update_keeps_others:
  "(k, e) \<in> set m \<Longrightarrow> k \<noteq> k' \<Longrightarrow> (k, e) \<in> set (AList.update k' v m)"
  by (induction m) auto

lemma keepsTombstones_assign:
  "keepsTombstones (Some k) (MetaMapObj m) (MetaMapObj (AList.update k v m))"
  by (auto simp: keepsTombstones_def list_all_iff update_keeps_others)

lemma keepsTombstones_delete:
  "keepsTombstones exc mo
     (case mo of MetaMapObj m \<Rightarrow> MetaMapObj (map (\<lambda>(k, e). (k, tombstone a e)) m)
      | MetaArray l \<Rightarrow> MetaArray (map (tombstone a) l))"
proof (cases mo)
  case (MetaMapObj m)
  have "(k, e) \<in> set m \<Longrightarrow> deleted e \<Longrightarrow> (k, e) \<in> (\<lambda>(k, e). (k, tombstone a e)) ` set m" for k e
    by (force simp: tombstone_def)
  with MetaMapObj show ?thesis
    by (auto simp: keepsTombstones_def list_all_iff)
next
  case (MetaArray l)
  then show ?thesis by (simp add: keepsTombstones_def tombstones_delete_list)
qed

lemma keepsTombstones_array:
  "filter deleted l' = filter deleted l \<Longrightarrow> keepsTombstones exc (MetaArray l) (MetaArray l')"
  by (simp add: keepsTombstones_def)

lemma kept_after_update:
  assumes "map_of objs n = Some mo" and "map_of objs i = Some mo1"
    and "i = n \<Longrightarrow> keepsTombstones exc mo1 mo2"
    and "\<not> (item_kind item \<noteq> OTHER \<and> item_name item = n)"
  shows "\<exists>mo'. map_of (createMetaObject (AList.update i mo2 objs) item) n = Some mo'
           \<and> keepsTombstones exc mo mo'"
proof (cases "i = n")
  case True
  with assms show ?thesis
    by (cases "item_kind item") (auto simp: map_of_createMetaObject update_conv')
next
  case False
  with assms show ?thesis
    by (cases "item_kind item")
      (auto simp: map_of_createMetaObject update_conv' keepsTombstones_refl)
qed

lemma kept_after_delete:
  assumes "map_of objs n = Some mo" and "map_of objs i = Some mo1"
    and "i = n \<Longrightarrow> keepsTombstones exc mo1 mo2"
  shows "\<exists>mo'. map_of (AList.update i mo2 objs) n = Some mo' \<and> keepsTombstones exc mo mo'"
  using assms by (cases "i = n") (auto simp: update_conv' keepsTombstones_refl)

text \<open>
  C8, as stated, fails for Assign: \<open>parent.set(at, {..., deleted: false})\<close> stores a new
  live entry under the key, whatever was stored there. In the example the key \<open>k\<close> of
  the document holds a tombstoned entry; after the Assign to \<open>k\<close> that entry is gone
  from the container and the slot is live.
\<close>

theorem assignment_replaces_tombstone_counterexample:
  "applyChange exampleStore reassignK
     = Inr [(ROOT_PARENT,
       MetaMapObj [(ROOT, \<lparr>name = Some (OpID ''a'' 1), val = VId (OpID ''a'' 1), kind = OBJECT, deleted = False\<rparr>)]),
      (OpID ''a'' 1,
       MetaMapObj [(Key ''k'', \<lparr>name = Some (OpID ''b'' 6), val = VNum 8, kind = OTHER, deleted = False\<rparr>),
                   (Key ''l'', \<lparr>name = Some (OpID ''a'' 3), val = VId (OpID ''a'' 3), kind = ARRAY, deleted = False\<rparr>)]),
      (OpID ''a'' 3,
       MetaArray [\<lparr>name = Some (OpID ''a'' 4), val = VNum 1, kind = OTHER, deleted = False\<rparr>,
                  \<lparr>name = Some (OpID ''a'' 5), val = VNum 2, kind = OTHER, deleted = True\<rparr>])]
   \<and> map_of exampleStore (OpID ''a'' 1)
     = Some (MetaMapObj
         [(Key ''k'', \<lparr>name = Some (OpID ''a'' 2), val = VNum 7, kind = OTHER, deleted = True\<rparr>),
          (Key ''l'', \<lparr>name = Some (OpID ''a'' 3), val = VId (OpID ''a'' 3), kind = ARRAY, deleted = False\<rparr>)])
   \<and> \<not> keepsTombstones None
       (MetaMapObj
         [(Key ''k'', \<lparr>name = Some (OpID ''a'' 2), val = VNum 7, kind = OTHER, deleted = True\<rparr>),
          (Key ''l'', \<lparr>name = Some (OpID ''a'' 3), val = VId (OpID ''a'' 3), kind = ARRAY, deleted = False\<rparr>)])
       (MetaMapObj
         [(Key ''k'', \<lparr>name = Some (OpID ''b'' 6), val = VNum 8, kind = OTHER, deleted = False\<rparr>),
          (Key ''l'', \<lparr>name = Some (OpID ''a'' 3), val = VId (OpID ''a'' 3), kind = ARRAY, deleted = False\<rparr>)])"
  by (simp add: exampleStore_def reassignK_def applyChange_def applyAssignment_def
      getMetaObject_def createMetaObject_def toEntry_def keepsTombstones_def)

text \<open>
  C8, amended. When an operation is applied without error, every container \<open>n\<close> of the
  arena that the operation does not re-create (its item is a primitive, or carries
  another identity than \<open>n\<close>) is still in the arena, has its shape, and keeps its
  tombstoned entries: a list keeps them all, in their order; a map keeps them under
  every key except the key that an Assign into this very map writes. The list
  operations are those of the model of ArrayUtils.ts.
\<close>

theorem tombstones_survive:
  assumes ok: "applyChange objs c = Inr objs'"
    and n: "map_of objs n = Some mo"
    and fresh: "\<not> recreates (action c) n"
  shows "\<exists>mo'. map_of objs' n = Some mo' \<and> keepsTombstones (assignedKey (action c) n) mo mo'"
proof (cases "action c")
  case (Assignment item k i)
  from ok Assignment obtain m where i: "map_of objs i = Some (MetaMapObj m)"
    and r: "objs' = createMetaObject
                 (AList.update i (MetaMapObj (AList.update k (toEntry item) m)) objs) item"
    by (auto simp: applyChange_def applyAssignment_def getMetaObject_def
        split: option.splits MetaObject.splits)
  from fresh Assignment have f: "\<not> (item_kind item \<noteq> OTHER \<and> item_name item = n)"
    by (simp add: recreates_def)
  have "i = n \<Longrightarrow> keepsTombstones (assignedKey (action c) n) (MetaMapObj m)
      (MetaMapObj (AList.update k (toEntry item) m))"
    using Assignment by (simp add: keepsTombstones_assign)
  from kept_after_update [OF n i this f] r show ?thesis by simp
next
  case (ListAssignment item k i)
  from ok ListAssignment obtain l where i: "map_of objs i = Some (MetaArray l)"
    and r: "objs' = createMetaObject
                 (AList.update i (MetaArray (assignToList l k item)) objs) item"
    by (auto simp: applyChange_def applyListAssignment_def getMetaObject_def
        split: option.splits MetaObject.splits)
  from fresh ListAssignment have f: "\<not> (item_kind item \<noteq> OTHER \<and> item_name item = n)"
    by (simp add: recreates_def)
  have "i = n \<Longrightarrow> keepsTombstones (assignedKey (action c) n) (MetaArray l)
      (MetaArray (assignToList l k item))"
    by (simp add: keepsTombstones_array tombstones_assignToList)
  from kept_after_update [OF n i this f] r show ?thesis by simp
next
  case (Insertion item a i)
  from ok Insertion obtain l where i: "map_of objs i = Some (MetaArray l)"
    and r: "objs' = createMetaObject
                 (AList.update i
                    (MetaArray (insertInList l (findInsertionIndex l item a) item)) objs) item"
    by (auto simp: applyChange_def applyInsertion_def getMetaObject_def
        split: option.splits MetaObject.splits)
  from fresh Insertion have f: "\<not> (item_kind item \<noteq> OTHER \<and> item_name item = n)"
    by (simp add: recreates_def)
  have "i = n \<Longrightarrow> keepsTombstones (assignedKey (action c) n) (MetaArray l)
      (MetaArray (insertInList l (findInsertionIndex l item a) item))"
    by (simp add: keepsTombstones_array tombstones_insertInList)
  from kept_after_update [OF n i this f] r show ?thesis by simp
next
  case (Deletion a i)
  from ok Deletion obtain mo1 where i: "map_of objs i = Some mo1"
    and r: "objs' = AList.update i
              (case mo1 of MetaMapObj m \<Rightarrow> MetaMapObj (map (\<lambda>(k, e). (k, tombstone a e)) m)
               | MetaArray l \<Rightarrow> MetaArray (map (tombstone a) l)) objs"
    by (auto simp: applyChange_def applyDeletion_def getMetaObject_def
        split: option.splits MetaObject.splits)
  have "i = n \<Longrightarrow> keepsTombstones (assignedKey (action c) n) mo1
      (case mo1 of MetaMapObj m \<Rightarrow> MetaMapObj (map (\<lambda>(k, e). (k, tombstone a e)) m)
               | MetaArray l \<Rightarrow> MetaArray (map (tombstone a) l))"
    by (rule keepsTombstones_delete)
  from kept_after_delete [OF n i this] r show ?thesis by simp
qed

theorem tombstones_survive_witness:
  "applyChange exampleStore insertAfterFirst
     = Inr [(ROOT_PARENT,
       MetaMapObj [(ROOT, \<lparr>name = Some (OpID ''a'' 1), val = VId (OpID ''a'' 1), kind = OBJECT, deleted = False\<rparr>)]),
      (OpID ''a'' 1,
       MetaMapObj [(Key ''k'', \<lparr>name = Some (OpID ''a'' 2), val = VNum 7, kind = OTHER, deleted = True\<rparr>),
                   (Key ''l'', \<lparr>name = Some (OpID ''a'' 3), val = VId (OpID ''a'' 3), kind = ARRAY, deleted = False\<rparr>)]),
      (OpID ''a'' 3,
       MetaArray [\<lparr>name = Some (OpID ''a'' 4), val = VNum 1, kind = OTHER, deleted = False\<rparr>,
                  \<lparr>name = Some (OpID ''a'' 5), val = VNum 2, kind = OTHER, deleted = True\<rparr>,
                  \<lparr>name = Some (OpID ''b'' 7), val = VNum 9, kind = OTHER, deleted = False\<rparr>])]
   \<and> keepsTombstones None
        (MetaArray [\<lparr>name = Some (OpID ''a'' 4), val = VNum 1, kind = OTHER, deleted = False\<rparr>,
                  \<lparr>name = Some (OpID ''a'' 5), val = VNum 2, kind = OTHER, deleted = True\<rparr>])
        (MetaArray [\<lparr>name = Some (OpID ''a'' 4), val = VNum 1, kind = OTHER, deleted = False\<rparr>,
                  \<lparr>name = Some (OpID ''a'' 5), val = VNum 2, kind = OTHER, deleted = True\<rparr>,
                  \<lparr>name = Some (OpID ''b'' 7), val = VNum 9, kind = OTHER, deleted = False\<rparr>])"
proof -
  let ?after = "[(ROOT_PARENT,
       MetaMapObj [(ROOT, \<lparr>name = Some (OpID ''a'' 1), val = VId (OpID ''a'' 1), kind = OBJECT, deleted = False\<rparr>)]),
      (OpID ''a'' 1,
       MetaMapObj [(Key ''k'', \<lparr>name = Some (OpID ''a'' 2), val = VNum 7, kind = OTHER, deleted = True\<rparr>),
                   (Key ''l'', \<lparr>name = Some (OpID ''a'' 3), val = VId (OpID ''a'' 3), kind = ARRAY, deleted = False\<rparr>)]),
      (OpID ''a'' 3,
       MetaArray [\<lparr>name = Some (OpID ''a'' 4), val = VNum 1, kind = OTHER, deleted = False\<rparr>,
                  \<lparr>name = Some (OpID ''a'' 5), val = VNum 2, kind = OTHER, deleted = True\<rparr>,
                  \<lparr>name = Some (OpID ''b'' 7), val = VNum 9, kind = OTHER, deleted = False\<rparr>])]"
  have h1: "applyChange exampleStore insertAfterFirst = Inr ?after"
    by code_simp
  have h2: "map_of exampleStore (OpID ''a'' 3)
     = Some (MetaArray [\<lparr>name = Some (OpID ''a'' 4), val = VNum 1, kind = OTHER, deleted = False\<rparr>,
                  \<lparr>name = Some (OpID ''a'' 5), val = VNum 2, kind = OTHER, deleted = True\<rparr>])"
    by (simp add: exampleStore_def)
  have h3: "\<not> recreates (action insertAfterFirst) (OpID ''a'' 3)"
    by (simp add: recreates_def insertAfterFirst_def)
  from tombstones_survive [OF h1 h2 h3] h1 show ?thesis
    by (simp add: insertAfterFirst_def)
qed

subsection \<open>Path resolution\<close>

lemma reduceSteps_append:
  "reduceSteps objs n (p @ q) =
     (case reduceSteps objs n p of Inl e \<Rightarrow> Inl e | Inr n' \<Rightarrow> reduceSteps objs n' q)"
  by (induction p arbitrary: n) (auto split: sum.splits)

lemma resolveStep_undefined:
  "resolveStep objs VUndefined j = Inl (RangeError ''Indexable element does not exist at this index'')"
  by (simp add: resolveStep_def getMetaObject_def)

text \<open>
  C9, as stated, fails: a tombstoned entry makes the running name \<open>undefined\<close>, and only
  when it is the last step is that the result. At any earlier step the next
  \<open>getMetaObject(undefined)\<close> throws. In a new State the root entry is tombstoned:
  the empty path resolves to \<open>undefined\<close>, the path \<open>["a"]\<close> raises. The same holds
  below the tombstoned key \<open>k\<close> of the example document.
\<close>

theorem tombstone_mid_path_raises_counterexample:
  "lookupEntry (MetaMapObj [(ROOT, \<lparr>name = None, val = VUndefined, kind = OTHER, deleted = True\<rparr>)]) ROOT
     = Inr (Some \<lparr>name = None, val = VUndefined, kind = OTHER, deleted = True\<rparr>)
   \<and> newState [] = (\<lparr>changes = [], seen_ids = {}, clock_hw = 0, objects = emptyObjects\<rparr>, None)
   \<and> getElement (fst (newState [])) [] = Inr VUndefined
   \<and> getElement (fst (newState [])) [Key ''a'']
       = Inl (RangeError ''Indexable element does not exist at this index'')
   \<and> getElementImpl exampleStore [ROOT, Key ''k''] = Inr VUndefined
   \<and> getElementImpl exampleStore [ROOT, Key ''k'', Key ''x'']
       = Inl (RangeError ''Indexable element does not exist at this index'')"
  by (simp add: lookupEntry_def newState_def reapplyAllChanges_def applyChanges_def witness_def
      getElement_def getElementImpl_def resolveStep_def getMetaObject_def emptyObjects_def
      nextName_def exampleStore_def ROOT_def)

lemma getElementImpl_snoc:
  "getElementImpl objs (p @ [i]) =
     (case getElementImpl objs p of Inl err \<Rightarrow> Inl err | Inr n \<Rightarrow> resolveStep objs n i)"
  by (simp add: getElementImpl_def reduceSteps_append split: sum.splits)

lemma getElementImpl_after_undefined:
  assumes "getElementImpl objs (p @ [i]) = Inr VUndefined"
  shows "getElementImpl objs (p @ i # j # rest)
           = Inl (RangeError ''Indexable element does not exist at this index'')"
proof -
  from assms have "reduceSteps objs (VId ROOT_PARENT) (p @ [i]) = Inr VUndefined"
    by (simp add: getElementImpl_def)
  then have "reduceSteps objs (VId ROOT_PARENT) ((p @ [i]) @ j # rest)
               = Inl (RangeError ''Indexable element does not exist at this index'')"
    by (simp only: reduceSteps_append) (simp add: resolveStep_undefined)
  then show ?thesis by (simp add: getElementImpl_def)
qed

lemma resolveStep_no_container:
  "map_of objs c = None \<Longrightarrow>
     resolveStep objs (VId c) i
       = Inl (RangeError ''Indexable element does not exist at this index'')"
  by (simp add: resolveStep_def getMetaObject_def)

lemma resolveStep_no_identity:
  "\<forall>c. n \<noteq> VId c \<Longrightarrow>
     resolveStep objs n i
       = Inl (RangeError ''Indexable element does not exist at this index'')"
  by (cases n) (simp_all add: resolveStep_def getMetaObject_def)

lemma lookupEntry_list:
  "lookupEntry (MetaArray l) (Pos k)
     = Inr (map_option (\<lambda>q. l ! q) (findIndexInTombstoneArray l k))"
  by (auto simp: lookupEntry_def split: option.splits dest: findIndex_live)

text \<open>
  C9, amended. \<open>getElement\<close> folds the step function over \<open>ROOT\<close> and then the path,
  starting from \<open>ROOT_PARENT\<close>; a step that raises ends the resolution with its error.
  A step looks up the container that the running name identifies, and raises a
  RangeError when the arena has none under that identity or the running name is no
  identity at all. In a map the entry is the one stored under the index, in a list the
  one at the physical slot of that live position. When there is no such entry, or the
  entry is tombstoned, the running name becomes absent, which is the result when this
  was the last step, and makes the resolution raise a RangeError when a further index
  follows; otherwise the next running name is the identity of the entry when it is a
  primitive and its stored value when it is a map or a list.
\<close>

theorem path_resolution_rule:
  "getElement s path = reduceSteps (objects s) (VId ROOT_PARENT) (ROOT # path)
   \<and> getElementImpl objs [] = Inr (VId ROOT_PARENT)
   \<and> getElementImpl objs (p @ [i]) =
       (case getElementImpl objs p of Inl err \<Rightarrow> Inl err | Inr n \<Rightarrow> resolveStep objs n i)
   \<and> (getElementImpl objs p = Inr n \<longrightarrow> getMetaObject objs n = Inr mo \<longrightarrow>
        lookupEntry mo i = Inr (Some e) \<longrightarrow>
          (deleted e \<longrightarrow>
             getElementImpl objs (p @ [i]) = Inr VUndefined
             \<and> getElementImpl objs (p @ i # j # rest)
                 = Inl (RangeError ''Indexable element does not exist at this index''))
          \<and> (\<not> deleted e \<longrightarrow> kind e = OTHER \<longrightarrow>
               getElementImpl objs (p @ [i])
                 = Inr (case name e of None \<Rightarrow> VUndefined | Some x \<Rightarrow> VId x))
          \<and> (\<not> deleted e \<longrightarrow> kind e \<noteq> OTHER \<longrightarrow>
               getElementImpl objs (p @ [i]) = Inr (val e)))
   \<and> (map_of objs c = Some mo \<longrightarrow> getMetaObject objs (VId c) = Inr mo)
   \<and> (getElementImpl objs p = Inr (VId c) \<longrightarrow> map_of objs c = None \<longrightarrow>
        getElementImpl objs (p @ [i])
          = Inl (RangeError ''Indexable element does not exist at this index''))
   \<and> (getElementImpl objs p = Inr n \<longrightarrow> (\<forall>c'. n \<noteq> VId c') \<longrightarrow>
        getElementImpl objs (p @ [i])
          = Inl (RangeError ''Indexable element does not exist at this index''))
   \<and> lookupEntry (MetaMapObj m) i = Inr (map_of m i)
   \<and> lookupEntry (MetaArray l) (Pos k)
        = Inr (map_option (\<lambda>q. l ! q) (findIndexInTombstoneArray l k))
   \<and> (getElementImpl objs p = Inr n \<longrightarrow> getMetaObject objs n = Inr mo \<longrightarrow>
        lookupEntry mo i = Inr None \<longrightarrow>
          getElementImpl objs (p @ [i]) = Inr VUndefined
          \<and> getElementImpl objs (p @ i # j # rest)
              = Inl (RangeError ''Indexable element does not exist at this index''))"
proof (intro conjI impI)
  show "getElement s path = reduceSteps (objects s) (VId ROOT_PARENT) (ROOT # path)"
    by (simp add: getElement_def getElementImpl_def)
  show "getElementImpl objs [] = Inr (VId ROOT_PARENT)"
    by (simp add: getElementImpl_def)
  show "getElementImpl objs (p @ [i]) =
       (case getElementImpl objs p of Inl err \<Rightarrow> Inl err | Inr n \<Rightarrow> resolveStep objs n i)"
    by (simp add: getElementImpl_def reduceSteps_append split: sum.splits)
next
  assume a: "getElementImpl objs p = Inr n" "getMetaObject objs n = Inr mo"
    "lookupEntry mo i = Inr (Some e)"
  then have step: "getElementImpl objs (p @ [i]) = Inr (nextName (Some e))"
    by (simp add: getElementImpl_def reduceSteps_append resolveStep_def)
  {
    assume "deleted e"
    with step show "getElementImpl objs (p @ [i]) = Inr VUndefined"
      by (simp add: nextName_def)
    then have "reduceSteps objs (VId ROOT_PARENT) (p @ [i]) = Inr VUndefined"
      by (simp add: getElementImpl_def)
    then have "reduceSteps objs (VId ROOT_PARENT) ((p @ [i]) @ j # rest)
                 = Inl (RangeError ''Indexable element does not exist at this index'')"
      by (simp only: reduceSteps_append) (simp add: resolveStep_undefined)
    then show "getElementImpl objs (p @ i # j # rest)
                 = Inl (RangeError ''Indexable element does not exist at this index'')"
      by (simp add: getElementImpl_def)
  }
  {
    assume "\<not> deleted e" "kind e = OTHER"
    with step show "getElementImpl objs (p @ [i])
                 = Inr (case name e of None \<Rightarrow> VUndefined | Some x \<Rightarrow> VId x)"
      by (simp add: nextName_def)
  }
  {
    assume "\<not> deleted e" "kind e \<noteq> OTHER"
    with step show "getElementImpl objs (p @ [i]) = Inr (val e)"
      by (simp add: nextName_def)
  }
next
  assume "map_of objs c = Some mo"
  then show "getMetaObject objs (VId c) = Inr mo"
    by (simp add: getMetaObject_def)
next
  assume "getElementImpl objs p = Inr (VId c)" "map_of objs c = None"
  then show "getElementImpl objs (p @ [i])
          = Inl (RangeError ''Indexable element does not exist at this index'')"
    by (simp add: getElementImpl_snoc resolveStep_no_container)
next
  assume "getElementImpl objs p = Inr n" "\<forall>c'. n \<noteq> VId c'"
  then show "getElementImpl objs (p @ [i])
          = Inl (RangeError ''Indexable element does not exist at this index'')"
    by (simp add: getElementImpl_snoc resolveStep_no_identity)
next
  show "lookupEntry (MetaMapObj m) i = Inr (map_of m i)"
    by (simp add: lookupEntry_def)
  show "lookupEntry (MetaArray l) (Pos k)
        = Inr (map_option (\<lambda>q. l ! q) (findIndexInTombstoneArray l k))"
    by (rule lookupEntry_list)
next
  assume "getElementImpl objs p = Inr n" "getMetaObject objs n = Inr mo"
    "lookupEntry mo i = Inr None"
  then show u: "getElementImpl objs (p @ [i]) = Inr VUndefined"
    by (simp add: getElementImpl_snoc resolveStep_def nextName_def)
  then show "getElementImpl objs (p @ i # j # rest)
              = Inl (RangeError ''Indexable element does not exist at this index'')"
    by (rule getElementImpl_after_undefined)
qed

theorem path_resolution_rule_witness:
  "getElementImpl exampleStore [ROOT] = Inr (VId (OpID ''a'' 1))
   \<and> getElementImpl exampleStore ([ROOT] @ [Key ''k'']) = Inr VUndefined
   \<and> getElementImpl exampleStore ([ROOT] @ Key ''k'' # Key ''x'' # [])
       = Inl (RangeError ''Indexable element does not exist at this index'')
   \<and> getElementImpl exampleStore ([ROOT] @ [Key ''l'']) = Inr (VId (OpID ''a'' 3))
   \<and> getElementImpl exampleStore ([ROOT, Key ''l''] @ [Pos 0]) = Inr (VId (OpID ''a'' 4))
   \<and> getElementImpl exampleStore ([ROOT] @ [Key ''zz'']) = Inr VUndefined
   \<and> getElementImpl exampleStore ([ROOT] @ Key ''zz'' # Key ''x'' # [])
       = Inl (RangeError ''Indexable element does not exist at this index'')
   \<and> getElementImpl exampleStore ([ROOT, Key ''l'', Pos 0] @ [Key ''x''])
       = Inl (RangeError ''Indexable element does not exist at this index'')
   \<and> getElementImpl exampleStore ([ROOT, Key ''k''] @ [Key ''x''])
       = Inl (RangeError ''Indexable element does not exist at this index'')
   \<and> getMetaObject exampleStore (VId (OpID ''a'' 3))
       = Inr (MetaArray [\<lparr>name = Some (OpID ''a'' 4), val = VNum 1, kind = OTHER, deleted = False\<rparr>,
                  \<lparr>name = Some (OpID ''a'' 5), val = VNum 2, kind = OTHER, deleted = True\<rparr>])"
proof -
  let ?m = "MetaMapObj
         [(Key ''k'', \<lparr>name = Some (OpID ''a'' 2), val = VNum 7, kind = OTHER, deleted = True\<rparr>),
          (Key ''l'', \<lparr>name = Some (OpID ''a'' 3), val = VId (OpID ''a'' 3), kind = ARRAY, deleted = False\<rparr>)]"
  let ?l = "MetaArray [\<lparr>name = Some (OpID ''a'' 4), val = VNum 1, kind = OTHER, deleted = False\<rparr>,
                  \<lparr>name = Some (OpID ''a'' 5), val = VNum 2, kind = OTHER, deleted = True\<rparr>]"
  have p1: "getElementImpl exampleStore [ROOT] = Inr (VId (OpID ''a'' 1))"
    by code_simp
  have m1: "getMetaObject exampleStore (VId (OpID ''a'' 1)) = Inr ?m"
    by code_simp
  have k: "lookupEntry ?m (Key ''k'')
      = Inr (Some \<lparr>name = Some (OpID ''a'' 2), val = VNum 7, kind = OTHER, deleted = True\<rparr>)"
    by code_simp
  have l: "lookupEntry ?m (Key ''l'')
      = Inr (Some \<lparr>name = Some (OpID ''a'' 3), val = VId (OpID ''a'' 3), kind = ARRAY, deleted = False\<rparr>)"
    by code_simp
  have p2: "getElementImpl exampleStore [ROOT, Key ''l''] = Inr (VId (OpID ''a'' 3))"
    by code_simp
  have m2: "getMetaObject exampleStore (VId (OpID ''a'' 3)) = Inr ?l"
    by code_simp
  have z: "lookupEntry ?l (Pos 0)
      = Inr (Some \<lparr>name = Some (OpID ''a'' 4), val = VNum 1, kind = OTHER, deleted = False\<rparr>)"
    by code_simp
  let ?ek = "\<lparr>name = Some (OpID ''a'' 2), val = VNum 7, kind = OTHER, deleted = True\<rparr>"
  let ?el = "\<lparr>name = Some (OpID ''a'' 3), val = VId (OpID ''a'' 3), kind = ARRAY, deleted = False\<rparr>"
  let ?e0 = "\<lparr>name = Some (OpID ''a'' 4), val = VNum 1, kind = OTHER, deleted = False\<rparr>"
  have dk: "deleted ?ek" by simp
  have dl: "\<not> deleted ?el" "kind ?el \<noteq> OTHER" by simp_all
  have d0: "\<not> deleted ?e0" "kind ?e0 = OTHER" by simp_all
  from path_resolution_rule
         [where objs = exampleStore and p = "[ROOT]" and n = "VId (OpID ''a'' 1)" and mo = ?m
            and i = "Key ''k''" and j = "Key ''x''" and rest = "[]" and e = ?ek]
       p1 m1 k dk
  have r1: "getElementImpl exampleStore ([ROOT] @ [Key ''k'']) = Inr VUndefined"
    and r2: "getElementImpl exampleStore ([ROOT] @ Key ''k'' # Key ''x'' # [])
       = Inl (RangeError ''Indexable element does not exist at this index'')"
    by blast+
  from path_resolution_rule
         [where objs = exampleStore and p = "[ROOT]" and n = "VId (OpID ''a'' 1)" and mo = ?m
            and i = "Key ''l''" and e = ?el]
       p1 m1 l dl
  have "getElementImpl exampleStore ([ROOT] @ [Key ''l'']) = Inr (val ?el)"
    by blast
  then have r3: "getElementImpl exampleStore ([ROOT] @ [Key ''l'']) = Inr (VId (OpID ''a'' 3))"
    by simp
  from path_resolution_rule
         [where objs = exampleStore and p = "[ROOT, Key ''l'']" and n = "VId (OpID ''a'' 3)"
            and mo = ?l and i = "Pos 0" and e = ?e0]
       p2 m2 z d0
  have "getElementImpl exampleStore ([ROOT, Key ''l''] @ [Pos 0])
          = Inr (case name ?e0 of None \<Rightarrow> VUndefined | Some x \<Rightarrow> VId x)"
    by blast
  then have r4: "getElementImpl exampleStore ([ROOT, Key ''l''] @ [Pos 0]) = Inr (VId (OpID ''a'' 4))"
    by simp
  have zz: "lookupEntry ?m (Key ''zz'') = Inr None"
    by code_simp
  from path_resolution_rule
         [where objs = exampleStore and p = "[ROOT]" and n = "VId (OpID ''a'' 1)" and mo = ?m
            and i = "Key ''zz''" and j = "Key ''x''" and rest = "[]"]
       p1 m1 zz
  have r5: "getElementImpl exampleStore ([ROOT] @ [Key ''zz'']) = Inr VUndefined"
    and r6: "getElementImpl exampleStore ([ROOT] @ Key ''zz'' # Key ''x'' # [])
       = Inl (RangeError ''Indexable element does not exist at this index'')"
    by blast+
  have p3: "getElementImpl exampleStore [ROOT, Key ''l'', Pos 0] = Inr (VId (OpID ''a'' 4))"
    by code_simp
  have n4: "map_of exampleStore (OpID ''a'' 4) = None"
    by (simp add: exampleStore_def)
  from path_resolution_rule
         [where objs = exampleStore and p = "[ROOT, Key ''l'', Pos 0]" and c = "OpID ''a'' 4"
            and i = "Key ''x''"]
       p3 n4
  have r7: "getElementImpl exampleStore ([ROOT, Key ''l'', Pos 0] @ [Key ''x''])
       = Inl (RangeError ''Indexable element does not exist at this index'')"
    by blast
  have p4: "getElementImpl exampleStore [ROOT, Key ''k''] = Inr VUndefined"
    by code_simp
  have nu: "\<forall>c'. VUndefined \<noteq> VId c'"
    by simp
  from path_resolution_rule
         [where objs = exampleStore and p = "[ROOT, Key ''k'']" and n = VUndefined
            and i = "Key ''x''"]
       p4 nu
  have r8: "getElementImpl exampleStore ([ROOT, Key ''k''] @ [Key ''x''])
       = Inl (RangeError ''Indexable element does not exist at this index'')"
    by blast
  have c3: "map_of exampleStore (OpID ''a'' 3) = Some ?l"
    by (simp add: exampleStore_def)
  from path_resolution_rule [where objs = exampleStore and c = "OpID ''a'' 3" and mo = ?l] c3
  have r9: "getMetaObject exampleStore (VId (OpID ''a'' 3)) = Inr ?l"
    by blast
  show ?thesis by (intro conjI) (rule p1 r1 r2 r3 r4 r5 r6 r7 r8 r9)+
qed

subsection \<open>The two paths of a submission\<close>

lemma witness_fields [simp]:
  "changes (witness s b) = changes s" "clock_hw (witness s b) = clock_hw s"
  "objects (witness s b) = objects s" "seen_ids (witness s b) = seen_ids s \<union> toID ` set b"
  by (simp_all add: witness_def)

lemma eligible_cong: "seen_ids s = seen_ids t \<Longrightarrow> eligible s = eligible t"
  by (auto simp: eligible_def seen_def fun_eq_iff split: option.splits)

lemma applyChanges_fields:
  "changes (fst (applyChanges s cs)) = changes s"
  "clock_hw (fst (applyChanges s cs)) = clock_hw s"
  "seen_ids (fst (applyChanges s cs)) = seen_ids s"
  "objects (fst (applyChanges s cs)) = fst (forEachApply (objects s) (filter (eligible s) cs))"
  "snd (applyChanges s cs) = snd (forEachApply (objects s) (filter (eligible s) cs))"
  by (simp_all add: applyChanges_def split: prod.splits)

lemma finish_fst [simp]: "fst (finish b r) = fst r"
  by (simp add: finish_def split: prod.splits option.splits)

lemma finish_snd:
  "snd (finish b r) = (case snd r of None \<Rightarrow> Inr b | Some e \<Rightarrow> Inl e)"
  by (simp add: finish_def split: prod.splits option.splits)

lemma addChange_accepted:
  "addChange s cs =
     (if accepted s cs \<noteq> [] \<and> clock_hw s < clock (hd (accepted s cs))
      then finish (accepted s cs)
             (applyChanges (appendChanges (witness s (accepted s cs)) (accepted s cs)) (accepted s cs))
      else if accepted s cs \<noteq> []
      then finish (accepted s cs)
             (reapplyAllChanges (insertChanges (witness s (accepted s cs)) (accepted s cs)))
      else (witness s (accepted s cs), Inr (accepted s cs)))"
  unfolding addChange_def accepted_def Let_def by simp

lemma addChange_fast:
  assumes "fastPath s cs"
  shows "fst (addChange s cs)
         = fst (applyChanges (appendChanges (witness s (accepted s cs)) (accepted s cs)) (accepted s cs))"
    and "snd (addChange s cs)
         = (case snd (applyChanges (appendChanges (witness s (accepted s cs)) (accepted s cs)) (accepted s cs))
            of None \<Rightarrow> Inr (accepted s cs) | Some e \<Rightarrow> Inl e)"
  using assms by (simp_all add: addChange_accepted fastPath_def finish_snd)

lemma addChange_slow:
  assumes "slowPath s cs"
  shows "fst (addChange s cs)
         = fst (reapplyAllChanges (insertChanges (witness s (accepted s cs)) (accepted s cs)))"
    and "snd (addChange s cs)
         = (case snd (reapplyAllChanges (insertChanges (witness s (accepted s cs)) (accepted s cs)))
            of None \<Rightarrow> Inr (accepted s cs) | Some e \<Rightarrow> Inl e)"
  using assms by (simp_all add: addChange_accepted slowPath_def finish_snd)

lemma addChange_none:
  assumes "accepted s cs = []"
  shows "addChange s cs = (s, Inr [])"
  using assms by (simp add: addChange_accepted witness_def)

lemma sorted_key_hd_clock:
  assumes "sorted (map changeKey b)" and "c \<in> set b"
  shows "clock (hd b) \<le> clock c"
proof (cases b)
  case Nil
  with assms show ?thesis by simp
next
  case (Cons x xs)
  with assms have "c = x \<or> changeKey x \<le> changeKey c" by auto
  then show ?thesis using Cons by (auto simp: changeKey_def less_eq_prod_def)
qed

lemma sorted_key_last_clock:
  assumes "sorted (map changeKey b)" and "c \<in> set b"
  shows "clock c \<le> clock (last b)"
  using assms
proof (induction b)
  case Nil
  then show ?case by simp
next
  case (Cons x xs)
  show ?case
  proof (cases "xs = []")
    case True
    with Cons.prems show ?thesis by simp
  next
    case False
    then have l: "last xs \<in> set xs" by simp
    from Cons.prems have "changeKey x \<le> changeKey (last xs)" using l by auto
    then have "clock x \<le> clock (last xs)" by (auto simp: changeKey_def less_eq_prod_def)
    moreover have "c \<in> set xs \<Longrightarrow> clock c \<le> clock (last xs)"
      using Cons by simp
    ultimately show ?thesis using Cons.prems False by auto
  qed
qed

lemma accepted_sorted: "sorted (map changeKey (accepted s cs))"
  by (simp add: accepted_def sortChanges_def)

lemma accepted_set:
  "set (accepted s cs) = {c \<in> set cs. toID c \<notin> seen_ids s}"
  by (auto simp: accepted_def sortChanges_def ensureBackendChange_def seen_def)

lemma seen_after_addChange:
  assumes "accepted s cs \<noteq> []"
  shows "seen_ids (fst (addChange s cs)) = seen_ids s \<union> toID ` set (accepted s cs)"
proof -
  from assms have "fastPath s cs \<or> slowPath s cs"
    by (auto simp: fastPath_def slowPath_def)
  then show ?thesis
  proof
    assume f: "fastPath s cs"
    show ?thesis
      by (simp add: addChange_fast [OF f] applyChanges_fields appendChanges_def)
  next
    assume sl: "slowPath s cs"
    show ?thesis
      by (simp add: addChange_slow [OF sl] reapplyAllChanges_def applyChanges_fields
          insertChanges_def)
  qed
qed

text \<open>
  C2. Let the accepted batch be the unseen changes of the submission, sorted. Its first
  change carries its least clock. When that clock is greater than the clock of the
  State (fast path), the batch is appended behind the log, the clock becomes the clock
  of the last change of the batch, which is greater than before, and the arena is the
  old arena with the eligible changes of the batch applied in order. Otherwise
  (slow path) the log becomes the sorted list of the old log and the batch together, and
  the arena is rebuilt: the eligible changes of the whole new log are applied in order
  to the arena that holds nothing but the empty root. In both the pass ends at the
  first change that raises.
\<close>

theorem addChange_fast_or_slow:
  "(fastPath s cs \<longrightarrow>
      changes (fst (addChange s cs)) = changes s @ accepted s cs
      \<and> clock_hw (fst (addChange s cs)) = clock (last (accepted s cs))
      \<and> clock_hw s < clock_hw (fst (addChange s cs))
      \<and> objects (fst (addChange s cs))
          = fst (forEachApply (objects s)
                  (filter (eligible (fst (addChange s cs))) (accepted s cs))))
   \<and> (slowPath s cs \<longrightarrow>
      changes (fst (addChange s cs)) = sortChanges (changes s @ accepted s cs)
      \<and> sorted (map changeKey (changes (fst (addChange s cs))))
      \<and> mset (changes (fst (addChange s cs))) = mset (changes s) + mset (accepted s cs)
      \<and> objects (fst (addChange s cs))
          = fst (forEachApply emptyObjects
                  (filter (eligible (fst (addChange s cs))) (changes (fst (addChange s cs))))))
   \<and> (accepted s cs \<noteq> [] \<longrightarrow>
        (fastPath s cs \<or> slowPath s cs)
        \<and> clock (hd (accepted s cs)) = Min (clock ` set (accepted s cs))
        \<and> clock (last (accepted s cs)) = Max (clock ` set (accepted s cs))
        \<and> seen_ids (fst (addChange s cs)) = seen_ids s \<union> toID ` set (accepted s cs))"
proof (intro conjI impI)
  assume f: "fastPath s cs"
  let ?b = "accepted s cs"
  let ?s1 = "appendChanges (witness s ?b) ?b"
  have e: "eligible (fst (addChange s cs)) = eligible ?s1"
    by (rule eligible_cong) (simp add: addChange_fast [OF f] applyChanges_fields)
  show "changes (fst (addChange s cs)) = changes s @ ?b"
    by (simp add: addChange_fast [OF f] applyChanges_fields appendChanges_def)
  show c: "clock_hw (fst (addChange s cs)) = clock (last ?b)"
    by (simp add: addChange_fast [OF f] applyChanges_fields appendChanges_def)
  from f have ne: "?b \<noteq> []" by (simp add: fastPath_def)
  then have "clock (hd ?b) \<le> clock (last ?b)"
    using sorted_key_hd_clock [OF accepted_sorted, of "last ?b" s cs] by simp
  with f c show "clock_hw s < clock_hw (fst (addChange s cs))"
    by (simp add: fastPath_def)
  show "objects (fst (addChange s cs))
          = fst (forEachApply (objects s) (filter (eligible (fst (addChange s cs))) ?b))"
    unfolding e by (simp add: addChange_fast [OF f] applyChanges_fields appendChanges_def)
next
  assume sl: "slowPath s cs"
  let ?b = "accepted s cs"
  let ?s1 = "insertChanges (witness s ?b) ?b"
  have e: "eligible (fst (addChange s cs)) = eligible (?s1\<lparr>objects := emptyObjects\<rparr>)"
    by (rule eligible_cong)
      (simp add: addChange_slow [OF sl] reapplyAllChanges_def applyChanges_fields)
  show ch: "changes (fst (addChange s cs)) = sortChanges (changes s @ ?b)"
    by (simp add: addChange_slow [OF sl] reapplyAllChanges_def applyChanges_fields
        insertChanges_def)
  show "sorted (map changeKey (changes (fst (addChange s cs))))"
    unfolding ch by (simp add: sortChanges_def)
  show "mset (changes (fst (addChange s cs))) = mset (changes s) + mset ?b"
    unfolding ch by (simp add: sortChanges_def)
  show "objects (fst (addChange s cs))
          = fst (forEachApply emptyObjects
                  (filter (eligible (fst (addChange s cs))) (changes (fst (addChange s cs)))))"
    unfolding e ch
    by (simp add: addChange_slow [OF sl] reapplyAllChanges_def applyChanges_fields
        insertChanges_def)
next
  assume ne: "accepted s cs \<noteq> []"
  let ?b = "accepted s cs"
  from ne show "fastPath s cs \<or> slowPath s cs"
    by (auto simp: fastPath_def slowPath_def)
  have "hd ?b \<in> set ?b" using ne by simp
  moreover have "\<forall>c\<in>set ?b. clock (hd ?b) \<le> clock c"
    using sorted_key_hd_clock [OF accepted_sorted] by blast
  ultimately show "clock (hd ?b) = Min (clock ` set ?b)"
    by (intro Min_eqI [symmetric]) auto
  have "last ?b \<in> set ?b" using ne by simp
  moreover have "\<forall>c\<in>set ?b. clock c \<le> clock (last ?b)"
    using sorted_key_last_clock [OF accepted_sorted] by blast
  ultimately show "clock (last ?b) = Max (clock ` set ?b)"
    by (intro Max_eqI [symmetric]) auto
  from ne show "seen_ids (fst (addChange s cs)) = seen_ids s \<union> toID ` set ?b"
    by (rule seen_after_addChange)
qed

theorem addChange_fast_or_slow_witness:
  "fastPath (fst (newState [])) [setRoot ''a'' 5]
   \<and> changes (fst (addChange (fst (newState [])) [setRoot ''a'' 5])) = [setRoot ''a'' 5]
   \<and> clock_hw (fst (addChange (fst (newState [])) [setRoot ''a'' 5])) = 5
   \<and> slowPath (fst (addChange (fst (newState [])) [setRoot ''a'' 5]))
        [setRoot ''a'' 9, setRoot ''a'' 3]
   \<and> changes (fst (addChange (fst (addChange (fst (newState [])) [setRoot ''a'' 5]))
        [setRoot ''a'' 9, setRoot ''a'' 3]))
     = [setRoot ''a'' 3, setRoot ''a'' 5, setRoot ''a'' 9]
   \<and> objects (fst (addChange (fst (addChange (fst (newState [])) [setRoot ''a'' 5]))
        [setRoot ''a'' 9, setRoot ''a'' 3]))
     = [(ROOT_PARENT,
         MetaMapObj [(ROOT, \<lparr>name = Some (OpID ''a'' 9), val = VNum 9, kind = OTHER, deleted = False\<rparr>)])]"
proof -
  let ?s0 = "fst (newState [])"
  let ?s1 = "fst (addChange ?s0 [setRoot ''a'' 5])"
  let ?cs = "[setRoot ''a'' 9, setRoot ''a'' 3]"
  let ?s2 = "fst (addChange ?s1 ?cs)"
  have f: "fastPath ?s0 [setRoot ''a'' 5]" by code_simp
  have sl: "slowPath ?s1 ?cs" by code_simp
  from addChange_fast_or_slow [of ?s0 "[setRoot ''a'' 5]"] f
  have a1: "changes ?s1 = changes ?s0 @ accepted ?s0 [setRoot ''a'' 5]"
    and a2: "clock_hw ?s1 = clock (last (accepted ?s0 [setRoot ''a'' 5]))"
    by blast+
  from addChange_fast_or_slow [of ?s1 ?cs] sl
  have b1: "changes ?s2 = sortChanges (changes ?s1 @ accepted ?s1 ?cs)"
    and b2: "objects ?s2 = fst (forEachApply emptyObjects (filter (eligible ?s2) (changes ?s2)))"
    by blast+
  have e1: "changes ?s0 @ accepted ?s0 [setRoot ''a'' 5] = [setRoot ''a'' 5]" by code_simp
  have e2: "clock (last (accepted ?s0 [setRoot ''a'' 5])) = 5" by code_simp
  have e3: "sortChanges (changes ?s1 @ accepted ?s1 ?cs)
              = [setRoot ''a'' 3, setRoot ''a'' 5, setRoot ''a'' 9]" by code_simp
  have e4: "fst (forEachApply emptyObjects (filter (eligible ?s2) (changes ?s2)))
     = [(ROOT_PARENT,
         MetaMapObj [(ROOT, \<lparr>name = Some (OpID ''a'' 9), val = VNum 9, kind = OTHER, deleted = False\<rparr>)])]"
    by code_simp
  show ?thesis
    using f sl a1 [unfolded e1] a2 [unfolded e2] b1 [unfolded e3] b2 [unfolded e4]
    by (intro conjI)
qed

subsection \<open>Causal gating and resubmission\<close>

lemma eligible_no_dep: "dep c = None \<Longrightarrow> eligible s c"
  by (simp add: eligible_def)

lemma eligible_dep: "dep c = Some d \<Longrightarrow> eligible s c = (d \<in> seen_ids s)"
  by (simp add: eligible_def seen_def)

lemma gating_in_a_pass:
  "changes (fst (applyChanges s cs)) = changes s
   \<and> objects (fst (applyChanges s cs)) = fst (forEachApply (objects s) (filter (eligible s) cs))
   \<and> (dep c = Some d \<longrightarrow> d \<notin> seen_ids s \<longrightarrow> c \<notin> set (filter (eligible s) cs))
   \<and> (dep c = None \<longrightarrow> c \<in> set cs \<longrightarrow> c \<in> set (filter (eligible s) cs))"
  by (simp add: applyChanges_fields eligible_no_dep eligible_dep)

lemma log_grows:
  "c \<in> set (changes s) \<Longrightarrow> c \<in> set (changes (fst (addChange s cs)))"
proof (cases "accepted s cs = []")
  case True
  assume "c \<in> set (changes s)"
  with True show ?thesis by (simp add: addChange_none)
next
  case False
  assume c: "c \<in> set (changes s)"
  from False have "fastPath s cs \<or> slowPath s cs"
    by (auto simp: fastPath_def slowPath_def)
  then show ?thesis
  proof
    assume f: "fastPath s cs"
    with c show ?thesis
      by (simp add: addChange_fast [OF f] applyChanges_fields appendChanges_def)
  next
    assume sl: "slowPath s cs"
    with c show ?thesis
      by (simp add: addChange_slow [OF sl] reapplyAllChanges_def applyChanges_fields
          insertChanges_def sortChanges_def)
  qed
qed

lemma deferred_applied_by_rebuild:
  assumes "c \<in> set (changes s)" and "dep c = Some d"
    and "d \<in> toID ` set (accepted s cs)" and "slowPath s cs"
  shows "c \<in> set (filter (eligible (fst (addChange s cs))) (changes (fst (addChange s cs))))"
proof -
  from assms(4) have "accepted s cs \<noteq> []" by (simp add: slowPath_def)
  then have "seen_ids (fst (addChange s cs)) = seen_ids s \<union> toID ` set (accepted s cs)"
    by (rule seen_after_addChange)
  with assms(2,3) have "eligible (fst (addChange s cs)) c"
    by (simp add: eligible_dep)
  with log_grows [OF assms(1)] show ?thesis by simp
qed

lemma resubmission_in_later_batch:
  assumes "\<forall>c\<in>set cs. toID c \<in> seen_ids s"
  shows "addChange s cs = (s, Inr [])"
proof -
  from assms have "filter (\<lambda>c. \<not> seen s (toID c)) cs = []"
    by (simp add: seen_def filter_empty_conv)
  then have "accepted s cs = []" by (simp add: accepted_def sortChanges_def)
  then show ?thesis by (rule addChange_none)
qed

lemma accepted_ids_seen_afterwards:
  "c \<in> set cs \<Longrightarrow> toID c \<in> seen_ids (fst (addChange s cs))"
proof (cases "accepted s cs = []")
  case True
  assume "c \<in> set cs"
  with True accepted_set [of s cs] show ?thesis by (auto simp: addChange_none)
next
  case False
  assume "c \<in> set cs"
  with seen_after_addChange [OF False] accepted_set [of s cs] show ?thesis by auto
qed

text \<open>
  C10. \<open>addChange\<close> witnesses the accepted batch before it applies anything, so the gate
  of the pass is evaluated with the identities of the whole batch in the seen-set. A
  change of the batch that depends on another change of the batch is therefore
  eligible in this very call, on the fast path and on the slow path, whether or not the
  change it depends on was itself eligible.
\<close>

theorem same_batch_dependency_passes_gate:
  assumes "c \<in> set (accepted s cs)" and "dep c = Some d"
    and "d \<in> toID ` set (accepted s cs)"
  shows "eligible (witness s (accepted s cs)) c
     \<and> (fastPath s cs \<longrightarrow>
          objects (fst (addChange s cs))
            = fst (forEachApply (objects s)
                    (filter (eligible (witness s (accepted s cs))) (accepted s cs)))
          \<and> c \<in> set (filter (eligible (witness s (accepted s cs))) (accepted s cs)))
     \<and> (slowPath s cs \<longrightarrow>
          objects (fst (addChange s cs))
            = fst (forEachApply emptyObjects
                    (filter (eligible (witness s (accepted s cs)))
                       (sortChanges (changes s @ accepted s cs))))
          \<and> c \<in> set (filter (eligible (witness s (accepted s cs)))
                       (sortChanges (changes s @ accepted s cs))))"
proof -
  let ?b = "accepted s cs"
  have el: "eligible (witness s ?b) c"
    using assms(2,3) by (simp add: eligible_dep)
  have fast: "objects (fst (addChange s cs))
            = fst (forEachApply (objects s) (filter (eligible (witness s ?b)) ?b))"
    if f: "fastPath s cs"
  proof -
    have "eligible (appendChanges (witness s ?b) ?b) = eligible (witness s ?b)"
      by (rule eligible_cong) (simp add: appendChanges_def)
    then show ?thesis
      by (simp add: addChange_fast [OF f] applyChanges_fields appendChanges_def)
  qed
  have slow: "objects (fst (addChange s cs))
            = fst (forEachApply emptyObjects
                    (filter (eligible (witness s ?b)) (sortChanges (changes s @ ?b))))"
    if sl: "slowPath s cs"
  proof -
    have "eligible ((insertChanges (witness s ?b) ?b)\<lparr>objects := emptyObjects\<rparr>)
            = eligible (witness s ?b)"
      by (rule eligible_cong) (simp add: insertChanges_def)
    then show ?thesis
      by (simp add: addChange_slow [OF sl] reapplyAllChanges_def applyChanges_fields
          insertChanges_def)
  qed
  from el assms(1) fast slow show ?thesis
    by (simp add: sortChanges_def)
qed

theorem same_batch_dependency_passes_gate_witness:
  "setKey ''y'' 3 (Some (OpID ''a'' 2))
     \<in> set (accepted (fst (addChange (fst (newState [])) [makeRoot]))
              [setKey ''x'' 2 (Some (OpID ''z'' 0)), setKey ''y'' 3 (Some (OpID ''a'' 2))])
   \<and> OpID ''a'' 2
     \<in> toID ` set (accepted (fst (addChange (fst (newState [])) [makeRoot]))
              [setKey ''x'' 2 (Some (OpID ''z'' 0)), setKey ''y'' 3 (Some (OpID ''a'' 2))])
   \<and> \<not> eligible
         (witness (fst (addChange (fst (newState [])) [makeRoot]))
            (accepted (fst (addChange (fst (newState [])) [makeRoot]))
              [setKey ''x'' 2 (Some (OpID ''z'' 0)), setKey ''y'' 3 (Some (OpID ''a'' 2))]))
         (setKey ''x'' 2 (Some (OpID ''z'' 0)))
   \<and> eligible
         (witness (fst (addChange (fst (newState [])) [makeRoot]))
            (accepted (fst (addChange (fst (newState [])) [makeRoot]))
              [setKey ''x'' 2 (Some (OpID ''z'' 0)), setKey ''y'' 3 (Some (OpID ''a'' 2))]))
         (setKey ''y'' 3 (Some (OpID ''a'' 2)))
   \<and> objects (fst (addChange (fst (addChange (fst (newState [])) [makeRoot]))
              [setKey ''x'' 2 (Some (OpID ''z'' 0)), setKey ''y'' 3 (Some (OpID ''a'' 2))]))
     = [(ROOT_PARENT,
         MetaMapObj [(ROOT, \<lparr>name = Some (OpID ''r'' 1), val = VId (OpID ''r'' 1), kind = OBJECT, deleted = False\<rparr>)]),
        (OpID ''r'' 1,
         MetaMapObj [(Key ''y'', \<lparr>name = Some (OpID ''a'' 3), val = VNum 3, kind = OTHER, deleted = False\<rparr>)])]"
proof -
  let ?s = "fst (addChange (fst (newState [])) [makeRoot])"
  let ?cs = "[setKey ''x'' 2 (Some (OpID ''z'' 0)), setKey ''y'' 3 (Some (OpID ''a'' 2))]"
  have h1: "setKey ''y'' 3 (Some (OpID ''a'' 2)) \<in> set (accepted ?s ?cs)"
    by code_simp
  have h2: "dep (setKey ''y'' 3 (Some (OpID ''a'' 2))) = Some (OpID ''a'' 2)"
    by (simp add: setKey_def)
  have h3: "OpID ''a'' 2 \<in> toID ` set (accepted ?s ?cs)"
    by code_simp
  have h4: "\<not> eligible (witness ?s (accepted ?s ?cs)) (setKey ''x'' 2 (Some (OpID ''z'' 0)))"
    by code_simp
  have h5: "objects (fst (addChange ?s ?cs))
     = [(ROOT_PARENT,
         MetaMapObj [(ROOT, \<lparr>name = Some (OpID ''r'' 1), val = VId (OpID ''r'' 1), kind = OBJECT, deleted = False\<rparr>)]),
        (OpID ''r'' 1,
         MetaMapObj [(Key ''y'', \<lparr>name = Some (OpID ''a'' 3), val = VNum 3, kind = OTHER, deleted = False\<rparr>)])]"
    by code_simp
  from same_batch_dependency_passes_gate [OF h1 h2 h3]
  have h6: "eligible (witness ?s (accepted ?s ?cs)) (setKey ''y'' 3 (Some (OpID ''a'' 2)))"
    by blast
  show ?thesis
    by (intro conjI) (rule h1 h3 h4 h5 h6)+
qed

subsection \<open>The clock after a slow-path submission\<close>

text \<open>
  C7 at a concrete input. A new State receives the change with clock 5 and then a batch
  with the clocks 9 and 3. The batch takes the slow path, where \<open>insertChanges\<close> merges
  it into the log and leaves the clock alone (\<open>appendChanges\<close> is the only place that
  sets it): the log holds the clocks 3, 5 and 9, the clock of the State is still 5 and
  \<open>next\<close> returns 6.
\<close>

theorem clock_stale_after_slow_path:
  "snd (submitAll (fst (newState [])) [[setRoot ''a'' 5], [setRoot ''a'' 9, setRoot ''a'' 3]]) = None
   \<and> map clock (changes (fst (submitAll (fst (newState []))
        [[setRoot ''a'' 5], [setRoot ''a'' 9, setRoot ''a'' 3]]))) = [3, 5, 9]
   \<and> clock_hw (fst (submitAll (fst (newState []))
        [[setRoot ''a'' 5], [setRoot ''a'' 9, setRoot ''a'' 3]])) = 5
   \<and> nextClock (fst (submitAll (fst (newState []))
        [[setRoot ''a'' 5], [setRoot ''a'' 9, setRoot ''a'' 3]])) = 6"
proof -
  let ?r = "submitAll (fst (newState [])) [[setRoot ''a'' 5], [setRoot ''a'' 9, setRoot ''a'' 3]]"
  have h1: "snd ?r = None" by code_simp
  have h2: "map clock (changes (fst ?r)) = [3, 5, 9]" by code_simp
  have h3: "clock_hw (fst ?r) = 5" by code_simp
  have h4: "nextClock (fst ?r) = 6" by code_simp
  show ?thesis by (intro conjI) (rule h1 h2 h3 h4)+
qed

subsection \<open>Arrival order\<close>

text \<open>
  C1 at a concrete input. Four changes without dependencies set the document to 3, 5, 7
  and 9 at these clocks. One State receives \<open>[5]\<close>, \<open>[9, 3]\<close>, \<open>[7]\<close>: the second batch
  takes the slow path and leaves the clock at 5, so the third takes the fast path, is
  appended behind the change with clock 9 and applied last. Another State receives the
  changes one by one in clock order. No submission raises; the first State holds the
  document 7 and the log order 3, 5, 9, 7, the second the document 9 and the log order
  3, 5, 7, 9.
\<close>

theorem arrival_order_changes_document:
  "snd (submitAll (fst (newState []))
        [[setRoot ''a'' 5], [setRoot ''a'' 9, setRoot ''a'' 3], [setRoot ''a'' 7]]) = None
   \<and> snd (submitAll (fst (newState []))
        [[setRoot ''a'' 3], [setRoot ''a'' 5], [setRoot ''a'' 7], [setRoot ''a'' 9]]) = None
   \<and> objects (fst (submitAll (fst (newState []))
        [[setRoot ''a'' 5], [setRoot ''a'' 9, setRoot ''a'' 3], [setRoot ''a'' 7]]))
     = [(ROOT_PARENT,
         MetaMapObj [(ROOT, \<lparr>name = Some (OpID ''a'' 7), val = VNum 7, kind = OTHER, deleted = False\<rparr>)])]
   \<and> objects (fst (submitAll (fst (newState []))
        [[setRoot ''a'' 3], [setRoot ''a'' 5], [setRoot ''a'' 7], [setRoot ''a'' 9]]))
     = [(ROOT_PARENT,
         MetaMapObj [(ROOT, \<lparr>name = Some (OpID ''a'' 9), val = VNum 9, kind = OTHER, deleted = False\<rparr>)])]
   \<and> map clock (changes (fst (submitAll (fst (newState []))
        [[setRoot ''a'' 5], [setRoot ''a'' 9, setRoot ''a'' 3], [setRoot ''a'' 7]]))) = [3, 5, 9, 7]
   \<and> map clock (changes (fst (submitAll (fst (newState []))
        [[setRoot ''a'' 3], [setRoot ''a'' 5], [setRoot ''a'' 7], [setRoot ''a'' 9]]))) = [3, 5, 7, 9]"
proof -
  let ?a = "submitAll (fst (newState []))
        [[setRoot ''a'' 5], [setRoot ''a'' 9, setRoot ''a'' 3], [setRoot ''a'' 7]]"
  let ?b = "submitAll (fst (newState []))
        [[setRoot ''a'' 3], [setRoot ''a'' 5], [setRoot ''a'' 7], [setRoot ''a'' 9]]"
  have h1: "snd ?a = None" by code_simp
  have h2: "snd ?b = None" by code_simp
  have h3: "objects (fst ?a) = [(ROOT_PARENT,
         MetaMapObj [(ROOT, \<lparr>name = Some (OpID ''a'' 7), val = VNum 7, kind = OTHER, deleted = False\<rparr>)])]"
    by code_simp
  have h4: "objects (fst ?b) = [(ROOT_PARENT,
         MetaMapObj [(ROOT, \<lparr>name = Some (OpID ''a'' 9), val = VNum 9, kind = OTHER, deleted = False\<rparr>)])]"
    by code_simp
  have h5: "map clock (changes (fst ?a)) = [3, 5, 9, 7]" by code_simp
  have h6: "map clock (changes (fst ?b)) = [3, 5, 7, 9]" by code_simp
  show ?thesis by (intro conjI) (rule h1 h2 h3 h4 h5 h6)+
qed

text \<open>
  C3 at a concrete input. The document is an object; the change with clock 9 sets its key
  \<open>o\<close> and depends on the change with clock 7. It arrives, together with clock 3,
  after clock 5: slow path, the change is skipped, the clock stays 5. Then its
  dependency arrives, with clock 7: fast path, only the dependency is applied. No
  submission raises, the deferred change is in the log, its dependency is seen, and the
  object has the keys \<open>b\<close>, \<open>a\<close> and \<open>d\<close> but no key \<open>o\<close>: the arena is the arena of
  a State that never received the deferred change, and \<open>render\<close> reads nothing but the
  arena. A State that receives the same changes one by one in clock order has the key.
\<close>

theorem dependency_arrives_deferred_stays_hidden:
  "snd (submitAll (fst (newState []))
        [[makeRoot], [setKey ''a'' 5 None],
         [setKey ''b'' 3 None, setKey ''o'' 9 (Some (OpID ''a'' 7))],
         [setKey ''d'' 7 None]]) = None
   \<and> setKey ''o'' 9 (Some (OpID ''a'' 7))
       \<in> set (changes (fst (submitAll (fst (newState []))
        [[makeRoot], [setKey ''a'' 5 None],
         [setKey ''b'' 3 None, setKey ''o'' 9 (Some (OpID ''a'' 7))],
         [setKey ''d'' 7 None]])))
   \<and> OpID ''a'' 7
       \<in> seen_ids (fst (submitAll (fst (newState []))
        [[makeRoot], [setKey ''a'' 5 None],
         [setKey ''b'' 3 None, setKey ''o'' 9 (Some (OpID ''a'' 7))],
         [setKey ''d'' 7 None]]))
   \<and> objects (fst (submitAll (fst (newState []))
        [[makeRoot], [setKey ''a'' 5 None],
         [setKey ''b'' 3 None, setKey ''o'' 9 (Some (OpID ''a'' 7))],
         [setKey ''d'' 7 None]]))
     = [(ROOT_PARENT,
         MetaMapObj [(ROOT, \<lparr>name = Some (OpID ''r'' 1), val = VId (OpID ''r'' 1), kind = OBJECT, deleted = False\<rparr>)]),
        (OpID ''r'' 1,
         MetaMapObj [(Key ''b'', \<lparr>name = Some (OpID ''a'' 3), val = VNum 3, kind = OTHER, deleted = False\<rparr>),
                     (Key ''a'', \<lparr>name = Some (OpID ''a'' 5), val = VNum 5, kind = OTHER, deleted = False\<rparr>),
                     (Key ''d'', \<lparr>name = Some (OpID ''a'' 7), val = VNum 7, kind = OTHER, deleted = False\<rparr>)])]
   \<and> map clock (changes (fst (submitAll (fst (newState []))
        [[makeRoot], [setKey ''a'' 5 None],
         [setKey ''b'' 3 None, setKey ''o'' 9 (Some (OpID ''a'' 7))],
         [setKey ''d'' 7 None]]))) = [1, 3, 5, 9, 7]
   \<and> clock_hw (fst (submitAll (fst (newState []))
        [[makeRoot], [setKey ''a'' 5 None],
         [setKey ''b'' 3 None, setKey ''o'' 9 (Some (OpID ''a'' 7))]])) = 5
   \<and> objects (fst (submitAll (fst (newState []))
        [[makeRoot], [setKey ''a'' 5 None],
         [setKey ''b'' 3 None, setKey ''o'' 9 (Some (OpID ''a'' 7))],
         [setKey ''d'' 7 None]]))
     = objects (fst (submitAll (fst (newState []))
        [[makeRoot], [setKey ''a'' 5 None], [setKey ''b'' 3 None], [setKey ''d'' 7 None]]))
   \<and> map_of (objects (fst (submitAll (fst (newState []))
        [[makeRoot], [setKey ''b'' 3 None], [setKey ''a'' 5 None], [setKey ''d'' 7 None],
         [setKey ''o'' 9 (Some (OpID ''a'' 7))]]))) (OpID ''r'' 1)
     = Some (MetaMapObj
         [(Key ''b'', \<lparr>name = Some (OpID ''a'' 3), val = VNum 3, kind = OTHER, deleted = False\<rparr>),
          (Key ''a'', \<lparr>name = Some (OpID ''a'' 5), val = VNum 5, kind = OTHER, deleted = False\<rparr>),
          (Key ''d'', \<lparr>name = Some (OpID ''a'' 7), val = VNum 7, kind = OTHER, deleted = False\<rparr>),
          (Key ''o'', \<lparr>name = Some (OpID ''a'' 9), val = VNum 9, kind = OTHER, deleted = False\<rparr>)])"
proof -
  let ?r = "submitAll (fst (newState []))
        [[makeRoot], [setKey ''a'' 5 None],
         [setKey ''b'' 3 None, setKey ''o'' 9 (Some (OpID ''a'' 7))],
         [setKey ''d'' 7 None]]"
  have h1: "snd ?r = None" by code_simp
  have h2: "setKey ''o'' 9 (Some (OpID ''a'' 7)) \<in> set (changes (fst ?r))" by code_simp
  have h3: "OpID ''a'' 7 \<in> seen_ids (fst ?r)" by code_simp
  have h4: "objects (fst ?r)
     = [(ROOT_PARENT,
         MetaMapObj [(ROOT, \<lparr>name = Some (OpID ''r'' 1), val = VId (OpID ''r'' 1), kind = OBJECT, deleted = False\<rparr>)]),
        (OpID ''r'' 1,
         MetaMapObj [(Key ''b'', \<lparr>name = Some (OpID ''a'' 3), val = VNum 3, kind = OTHER, deleted = False\<rparr>),
                     (Key ''a'', \<lparr>name = Some (OpID ''a'' 5), val = VNum 5, kind = OTHER, deleted = False\<rparr>),
                     (Key ''d'', \<lparr>name = Some (OpID ''a'' 7), val = VNum 7, kind = OTHER, deleted = False\<rparr>)])]"
    by code_simp
  have h5: "map clock (changes (fst ?r)) = [1, 3, 5, 9, 7]" by code_simp
  have h6: "clock_hw (fst (submitAll (fst (newState []))
        [[makeRoot], [setKey ''a'' 5 None],
         [setKey ''b'' 3 None, setKey ''o'' 9 (Some (OpID ''a'' 7))]])) = 5" by code_simp
  have h7: "objects (fst ?r)
     = objects (fst (submitAll (fst (newState []))
        [[makeRoot], [setKey ''a'' 5 None], [setKey ''b'' 3 None], [setKey ''d'' 7 None]]))"
    by code_simp
  have h8: "map_of (objects (fst (submitAll (fst (newState []))
        [[makeRoot], [setKey ''b'' 3 None], [setKey ''a'' 5 None], [setKey ''d'' 7 None],
         [setKey ''o'' 9 (Some (OpID ''a'' 7))]]))) (OpID ''r'' 1)
     = Some (MetaMapObj
         [(Key ''b'', \<lparr>name = Some (OpID ''a'' 3), val = VNum 3, kind = OTHER, deleted = False\<rparr>),
          (Key ''a'', \<lparr>name = Some (OpID ''a'' 5), val = VNum 5, kind = OTHER, deleted = False\<rparr>),
          (Key ''d'', \<lparr>name = Some (OpID ''a'' 7), val = VNum 7, kind = OTHER, deleted = False\<rparr>),
          (Key ''o'', \<lparr>name = Some (OpID ''a'' 9), val = VNum 9, kind = OTHER, deleted = False\<rparr>)])"
    by code_simp
  show ?thesis by (intro conjI) (rule h1 h2 h3 h4 h5 h6 h7 h8)+
qed

text \<open>
  C4 at a concrete input. The filter of \<open>addChange\<close> asks the seen-set, which is only
  extended after the filter has run, so two copies of a change in one batch are both
  accepted: the log of a new State gets both, both are returned, and both are applied
  (an Insert submitted twice in one batch makes two list elements, submitted once it
  makes one).
\<close>

theorem duplicate_in_one_batch_is_accepted:
  "addChange (fst (newState [])) [setRoot ''a'' 1, setRoot ''a'' 1]
     = (\<lparr>changes = [setRoot ''a'' 1, setRoot ''a'' 1], seen_ids = {OpID ''a'' 1}, clock_hw = 1,
         objects = [(ROOT_PARENT,
           MetaMapObj [(ROOT, \<lparr>name = Some (OpID ''a'' 1), val = VNum 1, kind = OTHER, deleted = False\<rparr>)])]\<rparr>,
        Inr [setRoot ''a'' 1, setRoot ''a'' 1])
   \<and> length (changes (fst (addChange (fst (newState [])) [setRoot ''a'' 1]))) = 1
   \<and> snd (submitAll (fst (newState [])) [[makeList], [insertHead 2, insertHead 2]]) = None
   \<and> map_of (objects (fst (submitAll (fst (newState [])) [[makeList], [insertHead 2, insertHead 2]])))
        (OpID ''r'' 1)
     = Some (MetaArray [\<lparr>name = Some (OpID ''a'' 2), val = VNum 2, kind = OTHER, deleted = False\<rparr>,
                        \<lparr>name = Some (OpID ''a'' 2), val = VNum 2, kind = OTHER, deleted = False\<rparr>])
   \<and> map_of (objects (fst (submitAll (fst (newState [])) [[makeList], [insertHead 2]])))
        (OpID ''r'' 1)
     = Some (MetaArray [\<lparr>name = Some (OpID ''a'' 2), val = VNum 2, kind = OTHER, deleted = False\<rparr>])"
proof -
  have h1: "addChange (fst (newState [])) [setRoot ''a'' 1, setRoot ''a'' 1]
     = (\<lparr>changes = [setRoot ''a'' 1, setRoot ''a'' 1], seen_ids = {OpID ''a'' 1}, clock_hw = 1,
         objects = [(ROOT_PARENT,
           MetaMapObj [(ROOT, \<lparr>name = Some (OpID ''a'' 1), val = VNum 1, kind = OTHER, deleted = False\<rparr>)])]\<rparr>,
        Inr [setRoot ''a'' 1, setRoot ''a'' 1])"
    by code_simp
  have h2: "length (changes (fst (addChange (fst (newState [])) [setRoot ''a'' 1]))) = 1"
    by code_simp
  have h3: "snd (submitAll (fst (newState [])) [[makeList], [insertHead 2, insertHead 2]]) = None"
    by code_simp
  have h4: "map_of (objects (fst (submitAll (fst (newState [])) [[makeList], [insertHead 2, insertHead 2]])))
        (OpID ''r'' 1)
     = Some (MetaArray [\<lparr>name = Some (OpID ''a'' 2), val = VNum 2, kind = OTHER, deleted = False\<rparr>,
                        \<lparr>name = Some (OpID ''a'' 2), val = VNum 2, kind = OTHER, deleted = False\<rparr>])"
    by code_simp
  have h5: "map_of (objects (fst (submitAll (fst (newState [])) [[makeList], [insertHead 2]])))
        (OpID ''r'' 1)
     = Some (MetaArray [\<lparr>name = Some (OpID ''a'' 2), val = VNum 2, kind = OTHER, deleted = False\<rparr>])"
    by code_simp
  show ?thesis by (intro conjI) (rule h1 h2 h3 h4 h5)+
qed

end
